theory Spec2Isabelle
  imports Complex_Main
begin

section \<open>Data model of the chunked analysis endpoint\<close>

text \<open>
  The development embeds \<^verbatim>\<open>src/app/api/analyze-bot-chunked/route.ts\<close> (the Chunk
  Executor: \<^verbatim>\<open>TEST_CHUNKS\<close>, \<^verbatim>\<open>processChunk\<close>, \<^verbatim>\<open>executeTest\<close>, \<^verbatim>\<open>POST\<close>) and the
  client loop \<^verbatim>\<open>runChunkedAnalysis\<close> of the page component.

  Everything outside the process is a parameter: the network replies, the time a check
  takes, and the scoring heuristics applied to the replies are fields of an environment
  record. The wall clock \<^verbatim>\<open>Date.now()\<close> and the module-level \<^verbatim>\<open>sessions\<close> map are
  fields of an explicit world state that every operation takes and returns.
\<close>

datatype category = branding | functionality | usability | fileSupport | errorHandling

datatype status = pending | running | passed | failed

text \<open>
  The result object of a check. The \<^verbatim>\<open>debugInfo\<close> field of the source (request and
  response texts, a timestamp and a duration) is never read by the orchestration and is
  left out.
\<close>

record CheckResult =
  name :: string
  status :: status
  details :: "string option"
  score :: "int option"
  error :: "string option"

text \<open>The object built by \<^verbatim>\<open>parseBotPage\<close>.\<close>

record BotMetadata =
  name_meta :: string
  displayName :: string
  description :: string
  profilePictureUrl :: "string option"
  isVerified :: bool
  followerCount :: "nat option"

text \<open>
  \<^verbatim>\<open>SessionData\<close>: the \<^verbatim>\<open>results\<close> object has one array per category key, so it is a
  function from the key to the array.
\<close>

record SessionData =
  botName_sd :: string
  results :: "category \<Rightarrow> CheckResult list"
  metadata :: "BotMetadata option"

record Scorecard =
  botName_sc :: string
  overallScore :: "int option"
  categories :: "category \<Rightarrow> CheckResult list"

text \<open>
  \<^verbatim>\<open>ProgressUpdate\<close>, one constructor per value of its \<^verbatim>\<open>type\<close> tag, with the fields
  the source sets for that tag:
  \<^item> \<open>Progress message progress currentTest totalTests sessionId\<close>
  \<^item> \<open>Test_start category testName message sessionId\<close>
  \<^item> \<open>Test_complete category testName result sessionId\<close>
  \<^item> \<open>Chunk_complete message nextChunk sessionId\<close>
  \<^item> \<open>Complete result progress message sessionId\<close>
  \<^item> \<open>Error message sessionId\<close>
\<close>

datatype ProgressUpdate =
    Progress string int int nat string
  | Test_start category string string string
  | Test_complete category string CheckResult string
  | Chunk_complete string int string
  | Complete Scorecard int string string
  | Error string string

record chunk =
  chunk_name :: string
  tests :: "string list"
  chunk_category :: category

definition TEST_CHUNKS :: "chunk list" where
  "TEST_CHUNKS =
    [ \<lparr>chunk_name = ''metadata'',
       tests = [''Fetch bot metadata'', ''Parse bot information''],
       chunk_category = usability\<rparr>,
      \<lparr>chunk_name = ''branding'',
       tests = [''Bot name consistency and formatting'',
                ''Profile picture appeal and quality'',
                ''Brand consistency with model family'',
                ''Official verification and credibility''],
       chunk_category = branding\<rparr>,
      \<lparr>chunk_name = ''description'',
       tests = [''Description clarity for non-technical users'',
                ''Advanced behavior documentation'',
                ''Limitation documentation''],
       chunk_category = usability\<rparr>,
      \<lparr>chunk_name = ''files_basic'',
       tests = [''PNG support'', ''JPEG support'', ''PDF support''],
       chunk_category = fileSupport\<rparr>,
      \<lparr>chunk_name = ''files_advanced'',
       tests = [''GIF support'', ''HEIC support'', ''TIFF support'', ''MP4 support''],
       chunk_category = fileSupport\<rparr>,
      \<lparr>chunk_name = ''conversation'',
       tests = [''Multi-turn conversation coherence'', ''Response time performance''],
       chunk_category = functionality\<rparr>,
      \<lparr>chunk_name = ''error_handling'',
       tests = [''Helpful error messages''],
       chunk_category = errorHandling\<rparr> ]"

text \<open>
  \<^verbatim>\<open>TEST_CHUNKS[chunkIndex]\<close>: \<^verbatim>\<open>undefined\<close> (here \<open>None\<close>) for an index outside the
  array, negative ones included.
\<close>

definition chunk_at :: "int \<Rightarrow> chunk option" where
  "chunk_at chunkIndex =
    (if 0 \<le> chunkIndex \<and> chunkIndex < int (length TEST_CHUNKS)
     then Some (TEST_CHUNKS ! nat chunkIndex) else None)"

section \<open>The environment and the world state\<close>

text \<open>What a \<^verbatim>\<open>fetch\<close> of the profile page gives: a page with an ok status (its HTML), a
  response with another status (status and status text), or a rejected promise (network
  error or the 5 s abort).\<close>

datatype fetch_reply =
    Page string
  | Http_error string string
  | Network_error string

text \<open>A thrown value: an \<^verbatim>\<open>Error\<close> object with its message, or anything else.\<close>

datatype thrown = Error_obj string | Non_error

text \<open>What a scoring heuristic decides: the fields of the result object other than its name.\<close>

record verdict =
  v_status :: status
  v_details :: string
  v_score :: int
  v_error :: "string option"

text \<open>
  The external collaborators.
  \<^item> \<open>fetchPage bot t\<close>: the reply to \<^verbatim>\<open>GET https://poe.com/<bot>\<close> issued at time \<open>t\<close>;
  \<^item> \<open>parsePage html bot\<close>: \<^verbatim>\<open>parseBotPage\<close>, regular-expression scraping of the page;
  \<^item> \<open>judge test m\<close>: the point-scoring of a branding check on metadata that is present;
  \<^item> \<open>judgeText test d\<close>: the point-scoring of a description check on the description text;
  \<^item> \<open>probe test t\<close>: the outcome of a check that talks to the chat-completion API,
    started at time \<open>t\<close> (its own \<^verbatim>\<open>try/catch\<close> turns every network failure into a
    failed result, so the outcome is always a verdict);
  \<^item> \<open>elapsed test t\<close>: the milliseconds the check started at time \<open>t\<close> takes;
  \<^item> \<open>rejects test t\<close>: an exception that escapes \<^verbatim>\<open>executeTest\<close> (the promise awaited
    in \<^verbatim>\<open>processChunk\<close> rejects), if any.
\<close>

record env =
  fetchPage :: "string \<Rightarrow> int \<Rightarrow> fetch_reply"
  parsePage :: "string \<Rightarrow> string \<Rightarrow> BotMetadata"
  judge :: "string \<Rightarrow> BotMetadata \<Rightarrow> verdict"
  judgeText :: "string \<Rightarrow> string \<Rightarrow> verdict"
  probe :: "string \<Rightarrow> int \<Rightarrow> verdict"
  elapsed :: "string \<Rightarrow> int \<Rightarrow> nat"
  rejects :: "string \<Rightarrow> int \<Rightarrow> thrown option"

text \<open>
  The state outside one invocation: the \<^verbatim>\<open>sessions\<close> map, the clock read by
  \<^verbatim>\<open>Date.now()\<close> (milliseconds), and the log of profile-page fetches issued so far (the
  bot name of each).
\<close>

record world =
  sessions :: "string \<rightharpoonup> SessionData"
  clock :: int
  pageFetches :: "string list"

section \<open>executeTest\<close>

definition result_of :: "string \<Rightarrow> verdict \<Rightarrow> CheckResult" where
  "result_of n v =
    \<lparr>name = n, status = v_status v, details = Some (v_details v),
     score = Some (v_score v), error = v_error v\<rparr>"

definition no_metadata :: "string \<Rightarrow> string \<Rightarrow> string option \<Rightarrow> CheckResult" where
  "no_metadata n d e = \<lparr>name = n, status = failed, details = Some d, score = Some 0, error = e\<rparr>"

text \<open>The four branding checks: a failed result with score 0 when the session has no
  metadata, the heuristic on the metadata otherwise.\<close>

definition testBotNameFormatting :: "env \<Rightarrow> SessionData \<Rightarrow> CheckResult" where
  "testBotNameFormatting E sessionData =
    (case metadata sessionData of
       None \<Rightarrow> no_metadata ''Bot name consistency and formatting''
                 ''No metadata available for name analysis''
                 (Some ''Metadata required for name testing'')
     | Some m \<Rightarrow> result_of ''Bot name consistency and formatting''
                 (judge E ''Bot name consistency and formatting'' m))"

definition testProfilePicture :: "env \<Rightarrow> SessionData \<Rightarrow> CheckResult" where
  "testProfilePicture E sessionData =
    (case metadata sessionData of
       None \<Rightarrow> no_metadata ''Profile picture appeal and quality''
                 ''No metadata available for profile picture analysis'' None
     | Some m \<Rightarrow> result_of ''Profile picture appeal and quality''
                 (judge E ''Profile picture appeal and quality'' m))"

definition testBrandConsistency :: "env \<Rightarrow> SessionData \<Rightarrow> CheckResult" where
  "testBrandConsistency E sessionData =
    (case metadata sessionData of
       None \<Rightarrow> no_metadata ''Brand consistency with model family''
                 ''No metadata available for brand analysis'' None
     | Some m \<Rightarrow> result_of ''Brand consistency with model family''
                 (judge E ''Brand consistency with model family'' m))"

definition testVerification :: "env \<Rightarrow> SessionData \<Rightarrow> CheckResult" where
  "testVerification E sessionData =
    (case metadata sessionData of
       None \<Rightarrow> no_metadata ''Official verification and credibility''
                 ''No metadata available for verification analysis'' None
     | Some m \<Rightarrow> result_of ''Official verification and credibility''
                 (judge E ''Official verification and credibility'' m))"

text \<open>The three description checks read \<^verbatim>\<open>metadata?.description || ''\<close>.\<close>

definition description_of :: "SessionData \<Rightarrow> string" where
  "description_of sessionData =
    (case metadata sessionData of None \<Rightarrow> [] | Some m \<Rightarrow> description m)"

definition testDescriptionClarity :: "env \<Rightarrow> SessionData \<Rightarrow> CheckResult" where
  "testDescriptionClarity E sessionData =
    result_of ''Description clarity for non-technical users''
      (judgeText E ''Description clarity for non-technical users'' (description_of sessionData))"

definition testAdvancedDocumentation :: "env \<Rightarrow> SessionData \<Rightarrow> CheckResult" where
  "testAdvancedDocumentation E sessionData =
    result_of ''Advanced behavior documentation''
      (judgeText E ''Advanced behavior documentation'' (description_of sessionData))"

definition testLimitationDocumentation :: "env \<Rightarrow> SessionData \<Rightarrow> CheckResult" where
  "testLimitationDocumentation E sessionData =
    result_of ''Limitation documentation''
      (judgeText E ''Limitation documentation'' (description_of sessionData))"

text \<open>The checks against the chat-completion API name their result
  \<^verbatim>\<open>`${fileType} support`\<close>, or by a literal.\<close>

definition testFileSupport :: "env \<Rightarrow> string \<Rightarrow> int \<Rightarrow> CheckResult" where
  "testFileSupport E fileType t = result_of (fileType @ '' support'') (probe E (fileType @ '' support'') t)"

definition testFileTypeAwareness :: "env \<Rightarrow> string \<Rightarrow> int \<Rightarrow> CheckResult" where
  "testFileTypeAwareness E fileType t = result_of (fileType @ '' support'') (probe E (fileType @ '' support'') t)"

definition testConversationCoherence :: "env \<Rightarrow> int \<Rightarrow> CheckResult" where
  "testConversationCoherence E t =
    result_of ''Multi-turn conversation coherence'' (probe E ''Multi-turn conversation coherence'' t)"

definition testResponseTime :: "env \<Rightarrow> int \<Rightarrow> CheckResult" where
  "testResponseTime E t =
    result_of ''Response time performance'' (probe E ''Response time performance'' t)"

text \<open>
  The \<^verbatim>\<open>Parse bot information\<close> case: \<^verbatim>\<open>hasValidName && hasDescription\<close> decides
  between passed with 95 and failed with 45; without metadata, failed with 0.
\<close>

definition parseBotInformation :: "string \<Rightarrow> SessionData \<Rightarrow> CheckResult" where
  "parseBotInformation testName sessionData =
    (case metadata sessionData of
       Some m \<Rightarrow>
         (let hasValidName = (0 < length (displayName m));
              hasDescription = (10 < length (description m))
          in \<lparr>name = testName,
              status = (if hasValidName \<and> hasDescription then passed else failed),
              details = Some (if hasValidName \<and> hasDescription
                              then ''Bot metadata parsed successfully''
                              else ''Bot metadata incomplete or missing''),
              score = Some (if hasValidName \<and> hasDescription then 95 else 45),
              error = None\<rparr>)
     | None \<Rightarrow> no_metadata testName ''No metadata available to parse''
                 (Some ''Metadata fetch must complete first''))"

text \<open>
  The \<^verbatim>\<open>Fetch bot metadata\<close> case. The page is fetched only when the session has no
  metadata; only a reply with an ok status stores metadata; every fetch issued is logged
  in the world.
\<close>

definition fetchBotMetadata ::
  "env \<Rightarrow> string \<Rightarrow> string \<Rightarrow> SessionData \<Rightarrow> world \<Rightarrow> CheckResult \<times> SessionData \<times> world" where
  "fetchBotMetadata E testName botName sessionData w =
    (case metadata sessionData of
       None \<Rightarrow>
         (let w1 = w\<lparr>pageFetches := pageFetches w @ [botName]\<rparr> in
          case fetchPage E botName (clock w) of
            Page html \<Rightarrow>
              (\<lparr>name = testName, status = passed,
                details = Some ''Successfully fetched and parsed bot page metadata'',
                score = Some 100, error = None\<rparr>,
               sessionData\<lparr>metadata := Some (parsePage E html botName)\<rparr>, w1)
          | Http_error code statusText \<Rightarrow>
              (\<lparr>name = testName, status = failed,
                details = Some (''Failed to fetch bot page: HTTP '' @ code),
                score = Some 0,
                error = Some (''HTTP '' @ code @ '': '' @ statusText)\<rparr>,
               sessionData, w1)
          | Network_error msg \<Rightarrow>
              (\<lparr>name = testName, status = failed,
                details = Some ''Network error or timeout when fetching bot page'',
                score = Some 0, error = Some msg\<rparr>,
               sessionData, w1))
     | Some m \<Rightarrow>
         (\<lparr>name = testName, status = passed,
           details = Some ''Metadata already available from previous fetch'',
           score = Some 100, error = None\<rparr>,
          sessionData, w))"

text \<open>
  \<^verbatim>\<open>executeTest\<close>: the \<^verbatim>\<open>switch\<close> on the test name, in the order of the source, with the
  \<^verbatim>\<open>default\<close> case last. The result is \<open>Inl\<close> of the thrown value when the promise
  rejects. The clock advances by the time the check takes.
\<close>

definition executeTest ::
  "env \<Rightarrow> string \<Rightarrow> string \<Rightarrow> string \<Rightarrow> SessionData \<Rightarrow> world
     \<Rightarrow> (thrown + CheckResult) \<times> SessionData \<times> world" where
  "executeTest E testName botName apiKey sessionData w =
    (let t = clock w;
         later = (\<lambda>w'. w'\<lparr>clock := clock w' + int (elapsed E testName t)\<rparr>);
         pure = (\<lambda>r. (Inr r, sessionData, later w))
     in case rejects E testName t of
          Some x \<Rightarrow> (Inl x, sessionData, later w)
        | None \<Rightarrow>
          if testName = ''Fetch bot metadata'' then
            (case fetchBotMetadata E testName botName sessionData w of
               (r, sd, w') \<Rightarrow> (Inr r, sd, later w'))
          else if testName = ''Helpful error messages'' then
            pure (result_of testName (probe E testName t))
          else if testName = ''Parse bot information'' then
            pure (parseBotInformation testName sessionData)
          else if testName = ''Bot name consistency and formatting'' then
            pure (testBotNameFormatting E sessionData)
          else if testName = ''Profile picture appeal and quality'' then
            pure (testProfilePicture E sessionData)
          else if testName = ''Brand consistency with model family'' then
            pure (testBrandConsistency E sessionData)
          else if testName = ''Official verification and credibility'' then
            pure (testVerification E sessionData)
          else if testName = ''Description clarity for non-technical users'' then
            pure (testDescriptionClarity E sessionData)
          else if testName = ''Advanced behavior documentation'' then
            pure (testAdvancedDocumentation E sessionData)
          else if testName = ''Limitation documentation'' then
            pure (testLimitationDocumentation E sessionData)
          else if testName = ''PNG support'' then pure (testFileSupport E ''PNG'' t)
          else if testName = ''JPEG support'' then pure (testFileSupport E ''JPEG'' t)
          else if testName = ''PDF support'' then pure (testFileSupport E ''PDF'' t)
          else if testName = ''GIF support'' then pure (testFileSupport E ''GIF'' t)
          else if testName = ''HEIC support'' then pure (testFileTypeAwareness E ''HEIC'' t)
          else if testName = ''TIFF support'' then pure (testFileTypeAwareness E ''TIFF'' t)
          else if testName = ''MP4 support'' then pure (testFileTypeAwareness E ''MP4'' t)
          else if testName = ''Multi-turn conversation coherence'' then
            pure (testConversationCoherence E t)
          else if testName = ''Response time performance'' then
            pure (testResponseTime E t)
          else
            pure \<lparr>name = testName, status = failed,
                  details = Some (''Test \"'' @ testName @ ''\" not implemented yet''),
                  score = Some 0, error = Some ''Test implementation missing''\<rparr>)"

section \<open>processChunk\<close>

definition MAX_CHUNK_TIME :: int where
  "MAX_CHUNK_TIME = 8000"

text \<open>\<^verbatim>\<open>Math.round\<close>: the nearest integer, a tie going up. The numbers of the source
  are doubles; the quotients formed here are of integers far below \<open>2\<^sup>5\<^sup>3\<close>, and the
  model computes with the exact quotient.\<close>

definition Math_round :: "real \<Rightarrow> int" where
  "Math_round x = \<lfloor>x + 1 / 2\<rfloor>"

text \<open>The object built in the \<^verbatim>\<open>catch\<close> of the loop body.\<close>

definition failedResult :: "string \<Rightarrow> thrown \<Rightarrow> CheckResult" where
  "failedResult testName err =
    \<lparr>name = testName, status = failed,
     details = Some (''Error: '' @ (case err of Error_obj m \<Rightarrow> m | Non_error \<Rightarrow> ''Unknown error'')),
     score = Some 0, error = None\<rparr>"

text \<open>\<^verbatim>\<open>categoryResults.push(result)\<close> on the array of the chunk's category.\<close>

definition push_result :: "category \<Rightarrow> CheckResult \<Rightarrow> SessionData \<Rightarrow> SessionData" where
  "push_result c r sessionData =
    sessionData\<lparr>results := (results sessionData)(c := results sessionData c @ [r])\<rparr>"

text \<open>
  The \<^verbatim>\<open>for\<close> loop over \<^verbatim>\<open>chunk.tests\<close>, as a recursion over the tests still to run.
  The state is the session object, the world and the events enqueued so far; the flag of
  the result says whether the loop left through the timeout \<^verbatim>\<open>return\<close>. The 200 ms
  \<^verbatim>\<open>setTimeout\<close> stands at the end of the \<^verbatim>\<open>try\<close> block only. Enqueueing an event is
  taken to succeed and to take no time, and the timer to last exactly 200 ms, so the
  only exception the \<^verbatim>\<open>catch\<close> sees is one of \<^verbatim>\<open>executeTest\<close>.
\<close>

fun run_tests ::
  "env \<Rightarrow> chunk \<Rightarrow> int \<Rightarrow> string \<Rightarrow> string \<Rightarrow> string \<Rightarrow> int \<Rightarrow> string list
     \<Rightarrow> SessionData \<times> world \<times> ProgressUpdate list
     \<Rightarrow> bool \<times> SessionData \<times> world \<times> ProgressUpdate list" where
  "run_tests E c chunkIndex botName apiKey sessionId startTime [] (sd, w, out) =
     (False, sd, w, out)"
| "run_tests E c chunkIndex botName apiKey sessionId startTime (testName # rest) (sd, w, out) =
     (if clock w - startTime > MAX_CHUNK_TIME then
        (True, sd, w,
         out @ [Chunk_complete ''Chunk timeout - continuing with next chunk''
                  (chunkIndex + 1) sessionId])
      else
        (let out1 = out @ [Test_start (chunk_category c) testName
                             (''Testing: '' @ testName) sessionId]
         in case executeTest E testName botName apiKey sd w of
              (Inr result, sd1, w1) \<Rightarrow>
                run_tests E c chunkIndex botName apiKey sessionId startTime rest
                  (push_result (chunk_category c) result sd1,
                   w1\<lparr>clock := clock w1 + 200\<rparr>,
                   out1 @ [Test_complete (chunk_category c) testName result sessionId])
            | (Inl err, sd1, w1) \<Rightarrow>
                run_tests E c chunkIndex botName apiKey sessionId startTime rest
                  (push_result (chunk_category c) (failedResult testName err) sd1,
                   w1,
                   out1 @ [Test_complete (chunk_category c) testName
                             (failedResult testName err) sessionId])))"

text \<open>\<^verbatim>\<open>Object.values(sessionData.results).flat()\<close>: the arrays in the order of the keys.\<close>

definition allResults :: "SessionData \<Rightarrow> CheckResult list" where
  "allResults sessionData =
    concat (map (results sessionData)
      [branding, functionality, usability, fileSupport, errorHandling])"

text \<open>
  The \<^verbatim>\<open>reduce\<close> adds \<^verbatim>\<open>score || 0\<close> of each result; the sum is divided by the number
  of results and rounded. With no result the quotient is \<^verbatim>\<open>NaN\<close>, here \<open>None\<close>.
\<close>

definition score_or_0 :: "CheckResult \<Rightarrow> int" where
  "score_or_0 r = (case score r of None \<Rightarrow> 0 | Some s \<Rightarrow> s)"

definition computeOverallScore :: "CheckResult list \<Rightarrow> int option" where
  "computeOverallScore rs =
    (if rs = [] then None
     else Some (Math_round
       (real_of_int (foldl (\<lambda>sum r. sum + score_or_0 r) 0 rs) / real (length rs))))"

definition fresh_session :: "string \<Rightarrow> SessionData" where
  "fresh_session botName = \<lparr>botName_sd = botName, results = (\<lambda>c. []), metadata = None\<rparr>"

text \<open>
  \<^verbatim>\<open>processChunk\<close>. The session object found in (or put into) the map is the one the
  loop mutates, so the map shows every push as soon as it is made; the model writes the
  object back at both exits of the loop, which is the same map at the moment the
  invocation returns. The returned list is what was enqueued on the controller.
\<close>

definition processChunk ::
  "env \<Rightarrow> string \<Rightarrow> string \<Rightarrow> int \<Rightarrow> string \<Rightarrow> world \<Rightarrow> world \<times> ProgressUpdate list" where
  "processChunk E botName apiKey chunkIndex sessionId w =
    (case chunk_at chunkIndex of
       None \<Rightarrow> (w, [])
     | Some c \<Rightarrow>
        (let out0 = [Progress (''Processing '' @ chunk_name c @ '' tests...'')
                       (Math_round (real_of_int chunkIndex / real (length TEST_CHUNKS) * 100))
                       (chunkIndex + 1) (length TEST_CHUNKS) sessionId];
             sd0 = (case sessions w sessionId of
                      Some sd \<Rightarrow> sd
                    | None \<Rightarrow> fresh_session botName);
             startTime = clock w
         in case run_tests E c chunkIndex botName apiKey sessionId startTime (tests c)
                   (sd0, w, out0) of
              (True, sd1, w1, out1) \<Rightarrow>
                (w1\<lparr>sessions := (sessions w1)(sessionId \<mapsto> sd1)\<rparr>, out1)
            | (False, sd1, w1, out1) \<Rightarrow>
                (if chunkIndex \<ge> int (length TEST_CHUNKS) - 1 then
                   (w1\<lparr>sessions := (sessions w1)(sessionId := None)\<rparr>,
                    out1 @ [Complete
                              \<lparr>botName_sc = botName,
                               overallScore = computeOverallScore (allResults sd1),
                               categories = results sd1\<rparr>
                              100 ''Analysis complete!'' sessionId])
                 else
                   (w1\<lparr>sessions := (sessions w1)(sessionId \<mapsto> sd1)\<rparr>,
                    out1 @ [Chunk_complete (chunk_name c @ '' complete'')
                              (chunkIndex + 1) sessionId]))))"

section \<open>The POST handler\<close>

text \<open>A number inside a template literal: its decimal digits.\<close>

fun digits :: "nat \<Rightarrow> string" where
  "digits n =
    (if n < 10 then [''0123456789'' ! n]
     else digits (n div 10) @ [''0123456789'' ! (n mod 10)])"

declare digits.simps [simp del]

definition show_int :: "int \<Rightarrow> string" where
  "show_int i = (if i < 0 then CHR ''-'' # digits (nat (- i)) else digits (nat i))"

text \<open>The request body. \<^verbatim>\<open>chunk\<close> and \<^verbatim>\<open>sessionId\<close> are optional; a missing
  \<^verbatim>\<open>botName\<close> or \<^verbatim>\<open>apiKey\<close> is falsy like the empty string.\<close>

record ChunkedAnalysisRequest =
  botName_req :: string
  apiKey_req :: string
  chunk_req :: "int option"
  sessionId_req :: "string option"

text \<open>The response: a JSON body with its status, or the event stream with what was
  enqueued on it and whether the controller was closed.\<close>

datatype response =
    Json_response string nat
  | Event_stream "ProgressUpdate list" bool

text \<open>
  \<^verbatim>\<open>POST\<close>. The \<^verbatim>\<open>finally\<close> closes the controller on every path. The \<^verbatim>\<open>catch\<close> that
  would enqueue an \<^verbatim>\<open>error\<close> event has no exception to catch here: every exception of a
  check is caught inside the loop of \<^verbatim>\<open>processChunk\<close>.
\<close>

definition POST :: "env \<Rightarrow> ChunkedAnalysisRequest \<Rightarrow> world \<Rightarrow> response \<times> world" where
  "POST E request w =
    (let botName = botName_req request;
         apiKey = apiKey_req request;
         chunkIndex = (case chunk_req request of None \<Rightarrow> 0 | Some i \<Rightarrow> i);
         generated = botName @ ''-'' @ show_int (clock w)
     in if botName = [] \<or> apiKey = [] then
          (Json_response ''Bot name and API key are required'' 400, w)
        else
          (let sessionId = (case sessionId_req request of
                              None \<Rightarrow> generated
                            | Some s \<Rightarrow> if s = [] then generated else s)
           in case processChunk E botName apiKey chunkIndex sessionId w of
                (w', out) \<Rightarrow> (Event_stream out True, w')))"

section \<open>The client loop\<close>

text \<open>
  One request of the client as the network answers it: the stream was read to its end,
  or an exception was thrown (\<^verbatim>\<open>fetch\<close> rejected, a status that is not ok, no body, or
  \<^verbatim>\<open>reader.read()\<close> rejected) after the listed events had been read, with the message
  of the error.
\<close>

datatype attempt =
    Stream_end "ProgressUpdate list"
  | Transport_failure "ProgressUpdate list" string

text \<open>What the client does, in order: the requests it sends, the events it hands to
  \<^verbatim>\<open>handleProgressUpdate\<close>, the timers it waits for (milliseconds), the status line
  and the alert it shows, and \<^verbatim>\<open>setIsRunning\<close>.\<close>

datatype client_action =
    Request int "string option"
  | Handle ProgressUpdate
  | Sleep nat
  | Status_message string
  | Alert string
  | SetIsRunning bool

definition MAX_RETRIES :: nat where
  "MAX_RETRIES = 3"

fun sessionId_of :: "ProgressUpdate \<Rightarrow> string" where
  "sessionId_of (Progress m p c t s) = s"
| "sessionId_of (Test_start c n m s) = s"
| "sessionId_of (Test_complete c n r s) = s"
| "sessionId_of (Chunk_complete m n s) = s"
| "sessionId_of (Complete r p m s) = s"
| "sessionId_of (Error m s) = s"

fun is_complete :: "ProgressUpdate \<Rightarrow> bool" where
  "is_complete (Complete r p m s) = True"
| "is_complete _ = False"

text \<open>\<^verbatim>\<open>!currentSessionId\<close>: \<^verbatim>\<open>null\<close> and the empty string are falsy.\<close>

fun falsy :: "string option \<Rightarrow> bool" where
  "falsy None = True"
| "falsy (Some s) = (s = [])"

text \<open>
  The body of the read loop over the events of one stream: the session identifier is
  taken from the first event that has one while none is known, a \<^verbatim>\<open>chunk_complete\<close>
  sets \<^verbatim>\<open>nextChunk\<close>, every event is handled, and a \<^verbatim>\<open>complete\<close> event returns from the
  whole function (the flag of the result).
\<close>

fun consume ::
  "ProgressUpdate list \<Rightarrow> string option \<Rightarrow> int option
     \<Rightarrow> bool \<times> string option \<times> int option \<times> client_action list" where
  "consume [] currentSessionId nextChunk = (False, currentSessionId, nextChunk, [])"
| "consume (data # lines) currentSessionId nextChunk =
    (let sid = (if sessionId_of data \<noteq> [] \<and> falsy currentSessionId
                then Some (sessionId_of data) else currentSessionId);
         nxt = (case data of Chunk_complete m n s \<Rightarrow> Some n | _ \<Rightarrow> nextChunk)
     in if is_complete data then (True, sid, nxt, [Handle data, SetIsRunning False])
        else (case consume lines sid nxt of
                (done, sid', nxt', acts) \<Rightarrow> (done, sid', nxt', Handle data # acts)))"

text \<open>
  \<^verbatim>\<open>runChunkedAnalysis\<close>, run against the list of answers the network gives to the
  successive requests. The timers \<^verbatim>\<open>setTimeout\<close> that re-enter the function are run in
  sequence. When the list of answers is used up the last request stays unanswered and the
  trace ends with it.
\<close>

fun runChunkedAnalysis ::
  "attempt list \<Rightarrow> int \<Rightarrow> string option \<Rightarrow> nat \<Rightarrow> client_action list" where
  "runChunkedAnalysis [] chunkIndex sessionId retryCount = [Request chunkIndex sessionId]"
| "runChunkedAnalysis (Stream_end evs # answers) chunkIndex sessionId retryCount =
    Request chunkIndex sessionId #
    (case consume evs sessionId None of
       (True, currentSessionId, nextChunk, acts) \<Rightarrow> acts
     | (False, currentSessionId, nextChunk, acts) \<Rightarrow>
         acts @
         (case nextChunk of
            Some n \<Rightarrow> Sleep 1000 # runChunkedAnalysis answers n currentSessionId 0
          | None \<Rightarrow> [SetIsRunning False]))"
| "runChunkedAnalysis (Transport_failure evs msg # answers) chunkIndex sessionId retryCount =
    Request chunkIndex sessionId #
    (case consume evs sessionId None of
       (True, currentSessionId, nextChunk, acts) \<Rightarrow> acts
     | (False, currentSessionId, nextChunk, acts) \<Rightarrow>
         acts @
         (if retryCount < MAX_RETRIES then
            (let delay = 2 ^ retryCount * 1000
             in [Status_message (''Connection lost, retrying in '' @ digits (delay div 1000)
                   @ ''s... (attempt '' @ digits (retryCount + 1) @ ''/''
                   @ digits MAX_RETRIES @ '')''),
                 Sleep delay]
                @ runChunkedAnalysis answers chunkIndex sessionId (retryCount + 1))
          else
            [Alert (''Analysis failed after '' @ digits MAX_RETRIES @ '' retries: '' @ msg),
             SetIsRunning False]))"

text \<open>The requests and the timer waits of a client trace.\<close>

fun request_or_wait :: "client_action \<Rightarrow> bool" where
  "request_or_wait (Request i s) = True"
| "request_or_wait (Sleep n) = True"
| "request_or_wait _ = False"

definition requests_and_waits :: "client_action list \<Rightarrow> client_action list" where
  "requests_and_waits acts = filter request_or_wait acts"

text \<open>What the read loop of one attempt hands to the page, and whether it returned at a
  \<^verbatim>\<open>complete\<close> event.\<close>

definition completes :: "ProgressUpdate list \<Rightarrow> string option \<Rightarrow> bool" where
  "completes evs sessionId = fst (consume evs sessionId None)"

definition handled :: "ProgressUpdate list \<Rightarrow> string option \<Rightarrow> client_action list" where
  "handled evs sessionId = snd (snd (snd (consume evs sessionId None)))"

section \<open>Reading the event stream\<close>

text \<open>Projections of a list of events: the names of the checks started, the results
  carried by the \<^verbatim>\<open>test_complete\<close> events and their names, the \<^verbatim>\<open>nextChunk\<close> values
  announced, the scorecards delivered, and the \<^verbatim>\<open>chunk_complete\<close> events sent by the
  timeout exit of the loop.\<close>

fun started :: "ProgressUpdate \<Rightarrow> string list" where
  "started (Test_start c n m s) = [n]"
| "started _ = []"

fun completed :: "ProgressUpdate \<Rightarrow> CheckResult list" where
  "completed (Test_complete c n r s) = [r]"
| "completed _ = []"

fun announced :: "ProgressUpdate \<Rightarrow> int list" where
  "announced (Chunk_complete m n s) = [n]"
| "announced _ = []"

fun delivered :: "ProgressUpdate \<Rightarrow> Scorecard list" where
  "delivered (Complete r p m s) = [r]"
| "delivered _ = []"

fun budget_exit :: "ProgressUpdate \<Rightarrow> bool" where
  "budget_exit (Chunk_complete m n s) = (m = ''Chunk timeout - continuing with next chunk'')"
| "budget_exit _ = False"

definition started_names :: "ProgressUpdate list \<Rightarrow> string list" where
  "started_names out = concat (map started out)"

definition completed_results :: "ProgressUpdate list \<Rightarrow> CheckResult list" where
  "completed_results out = concat (map completed out)"

definition completed_names :: "ProgressUpdate list \<Rightarrow> string list" where
  "completed_names out = map name (completed_results out)"

definition next_chunks :: "ProgressUpdate list \<Rightarrow> int list" where
  "next_chunks out = concat (map announced out)"

definition scorecards :: "ProgressUpdate list \<Rightarrow> Scorecard list" where
  "scorecards out = concat (map delivered out)"

definition budget_exits :: "ProgressUpdate list \<Rightarrow> ProgressUpdate list" where
  "budget_exits out = filter budget_exit out"

text \<open>The check registry: the test lists of all chunks, in order.\<close>

definition registry :: "string list" where
  "registry = concat (map tests TEST_CHUNKS)"

text \<open>The session object an invocation works on: the stored one, or a fresh one.\<close>

definition session_or_fresh :: "world \<Rightarrow> string \<Rightarrow> string \<Rightarrow> SessionData" where
  "session_or_fresh w sessionId botName =
    (case sessions w sessionId of Some sd \<Rightarrow> sd | None \<Rightarrow> fresh_session botName)"

text \<open>One pass of the loop body for a check that is started: the part of \<open>run_tests\<close>
  after the budget test.\<close>

definition check_step ::
  "env \<Rightarrow> chunk \<Rightarrow> string \<Rightarrow> string \<Rightarrow> string \<Rightarrow> string
     \<Rightarrow> SessionData \<times> world \<times> ProgressUpdate list
     \<Rightarrow> SessionData \<times> world \<times> ProgressUpdate list" where
  "check_step E c botName apiKey sessionId testName st =
    (case st of (sd, w, out) \<Rightarrow>
       (let out1 = out @ [Test_start (chunk_category c) testName
                            (''Testing: '' @ testName) sessionId]
        in case executeTest E testName botName apiKey sd w of
             (Inr result, sd1, w1) \<Rightarrow>
               (push_result (chunk_category c) result sd1,
                w1\<lparr>clock := clock w1 + 200\<rparr>,
                out1 @ [Test_complete (chunk_category c) testName result sessionId])
           | (Inl err, sd1, w1) \<Rightarrow>
               (push_result (chunk_category c) (failedResult testName err) sd1,
                w1,
                out1 @ [Test_complete (chunk_category c) testName
                          (failedResult testName err) sessionId])))"

text \<open>A run of one session: the given chunk indices are requested one after the other
  with the same session identifier, and the events of all invocations are collected.\<close>

fun process_in_order ::
  "env \<Rightarrow> string \<Rightarrow> string \<Rightarrow> string \<Rightarrow> int list \<Rightarrow> world \<Rightarrow> world \<times> ProgressUpdate list" where
  "process_in_order E botName apiKey sessionId [] w = (w, [])"
| "process_in_order E botName apiKey sessionId (i # is) w =
    (case processChunk E botName apiKey i sessionId w of
       (w1, out1) \<Rightarrow>
         (case process_in_order E botName apiKey sessionId is w1 of
            (w2, out2) \<Rightarrow> (w2, out1 @ out2)))"

text \<open>The three events \<open>processChunk\<close> builds outside the loop body, and the one of the
  timeout exit.\<close>

definition progress_event :: "chunk \<Rightarrow> int \<Rightarrow> string \<Rightarrow> ProgressUpdate" where
  "progress_event c i sid =
     Progress (''Processing '' @ chunk_name c @ '' tests...'')
       (Math_round (real_of_int i / real (length TEST_CHUNKS) * 100))
       (i + 1) (length TEST_CHUNKS) sid"

definition timeout_event :: "int \<Rightarrow> string \<Rightarrow> ProgressUpdate" where
  "timeout_event i sid =
     Chunk_complete ''Chunk timeout - continuing with next chunk'' (i + 1) sid"

definition complete_event :: "string \<Rightarrow> SessionData \<Rightarrow> string \<Rightarrow> ProgressUpdate" where
  "complete_event b sd sid =
     Complete \<lparr>botName_sc = b, overallScore = computeOverallScore (allResults sd),
               categories = results sd\<rparr> 100 ''Analysis complete!'' sid"

text \<open>The names stored for a session in one category, if the session exists.\<close>

definition stored_names :: "world \<Rightarrow> string \<Rightarrow> category \<Rightarrow> string list option" where
  "stored_names w sessionId cat =
    (case sessions w sessionId of None \<Rightarrow> None | Some sd \<Rightarrow> Some (map name (results sd cat)))"

section \<open>Example environments\<close>

text \<open>
  \<open>E_ok\<close> is a run against a bot named \<^verbatim>\<open>Assistant\<close> whose profile page has a title and
  nothing else, and whose API answers every prompt promptly. Its fields give what the
  code computes from such replies:
  \<^item> \<open>parsePage\<close>: the display name from the title, an empty description, no picture,
    not verified, no follower count;
  \<^item> \<open>judge\<close>: the name is well formed (100, passed); there is no picture (0, failed);
    a short custom name (75 + 10, passed); not verified (60 - 10, failed);
  \<^item> \<open>judgeText\<close>: on the empty description, 40, 60 and 70, all failed;
  \<^item> \<open>probe\<close>: the file checks get a usable answer (100; 60 + 20 for the three
    awareness questions), the conversation is coherent (85), the greeting comes back in
    1200 ms (100), the error message is specific and helpful (50 + 25 + 25);
  \<^item> \<open>elapsed\<close>: 300 ms for the page, 1200 ms for a check with one API call, 2000 ms for
    the conversation (four calls of 300 ms and its four pauses of 200 ms), nothing
    measurable for the checks that only read the session;
  \<^item> no check throws.

  \<open>E_slow\<close> is the same bot with an API that takes nine seconds to answer (the calls are
  aborted after ten): each API check lasts 9000 ms, and the response-time check, whose
  score depends on the time, gives 50 and failed. The page and the checks that only read
  the session are as in \<open>E_ok\<close>.

  \<open>E_down\<close> is \<open>E_ok\<close> with a profile page that answers with status 500.

  \<open>E_reject\<close> is the case the \<^verbatim>\<open>catch\<close> in the loop of \<^verbatim>\<open>processChunk\<close> is written for:
  every call of \<^verbatim>\<open>executeTest\<close> throws. The checks of this file catch their own errors,
  so it exercises that branch and is no run of these checks.

  \<open>w_init\<close>: no session, the clock at 0, no fetch issued.
\<close>

definition api_checks :: "string list" where
  "api_checks =
    [''PNG support'', ''JPEG support'', ''PDF support'', ''GIF support'', ''HEIC support'',
     ''TIFF support'', ''MP4 support'', ''Multi-turn conversation coherence'',
     ''Response time performance'', ''Helpful error messages'']"

definition verdict_of :: "status \<Rightarrow> string \<Rightarrow> int \<Rightarrow> verdict" where
  "verdict_of s d n = \<lparr>v_status = s, v_details = d, v_score = n, v_error = None\<rparr>"

definition judge_ok :: "string \<Rightarrow> BotMetadata \<Rightarrow> verdict" where
  "judge_ok test m =
    (if test = ''Bot name consistency and formatting'' then
       verdict_of passed ''Name formatting follows good practices'' 100
     else if test = ''Profile picture appeal and quality'' then
       verdict_of failed ''No profile picture found'' 0
     else if test = ''Brand consistency with model family'' then
       verdict_of passed ''Clean, branded name for custom bot'' 85
     else verdict_of failed ''Bot is not verified'' 50)"

definition judgeText_ok :: "string \<Rightarrow> string \<Rightarrow> verdict" where
  "judgeText_ok test d =
    (if test = ''Description clarity for non-technical users'' then
       verdict_of failed ''Description too short or missing'' 40
     else if test = ''Advanced behavior documentation'' then
       verdict_of failed ''No advanced parameter documentation found'' 60
     else verdict_of failed ''No clear limitation documentation'' 70)"

definition probe_ok :: "string \<Rightarrow> int \<Rightarrow> verdict" where
  "probe_ok test t =
    (if test = ''Helpful error messages'' then
       verdict_of passed ''Bot provides specific error information'' 100
     else if test = ''Multi-turn conversation coherence'' then
       verdict_of passed ''Average response time: 300ms per message'' 85
     else if test = ''Response time performance'' then
       verdict_of passed ''Response time: 1200ms'' 100
     else if test \<in> set [''HEIC support'', ''TIFF support'', ''MP4 support''] then
       verdict_of passed ''Bot provides specific information about file type support'' 80
     else verdict_of passed ''Bot successfully processed the file'' 100)"

definition probe_slow :: "string \<Rightarrow> int \<Rightarrow> verdict" where
  "probe_slow test t =
    (if test = ''Multi-turn conversation coherence'' then
       verdict_of passed ''Average response time: 2050ms per message'' 85
     else if test = ''Response time performance'' then
       verdict_of failed ''Response time: 9000ms'' 50
     else probe_ok test t)"

definition elapsed_ok :: "string \<Rightarrow> int \<Rightarrow> nat" where
  "elapsed_ok test t =
    (if test = ''Fetch bot metadata'' then 300
     else if test = ''Multi-turn conversation coherence'' then 2000
     else if test \<in> set api_checks then 1200
     else 0)"

definition elapsed_slow :: "string \<Rightarrow> int \<Rightarrow> nat" where
  "elapsed_slow test t = (if test \<in> set api_checks then 9000 else elapsed_ok test t)"

definition E_ok :: env where
  "E_ok =
    \<lparr>fetchPage = (\<lambda>bot t. Page ''<title>Assistant - Poe</title>''),
     parsePage = (\<lambda>html bot.
        \<lparr>name_meta = bot, displayName = ''Assistant'', description = [],
         profilePictureUrl = None, isVerified = False, followerCount = None\<rparr>),
     judge = judge_ok,
     judgeText = judgeText_ok,
     probe = probe_ok,
     elapsed = elapsed_ok,
     rejects = (\<lambda>test t. None)\<rparr>"

definition E_slow :: env where
  "E_slow = E_ok\<lparr>probe := probe_slow, elapsed := elapsed_slow\<rparr>"

definition E_down :: env where
  "E_down = E_ok\<lparr>fetchPage := (\<lambda>bot t. Http_error ''500'' ''Internal Server Error'')\<rparr>"

definition E_reject :: env where
  "E_reject = E_ok\<lparr>rejects := (\<lambda>test t. Some (Error_obj ''socket hang up''))\<rparr>"

definition w_init :: world where
  "w_init = \<lparr>sessions = Map.empty, clock = 0, pageFetches = []\<rparr>"

text \<open>\<open>w_partial\<close>: session \<open>s1\<close> holds one result with score 45 and one result that has
  no score.\<close>

definition w_partial :: world where
  "w_partial =
    \<lparr>sessions =
       [''s1'' \<mapsto>
         \<lparr>botName_sd = ''Assistant'',
          results = (\<lambda>c. [])
            (usability := [\<lparr>name = ''Parse bot information'', status = failed,
                            details = None, score = Some 45, error = None\<rparr>],
             branding := [\<lparr>name = ''Profile picture appeal and quality'', status = pending,
                           details = None, score = None, error = None\<rparr>]),
          metadata = None\<rparr>],
     clock = 0, pageFetches = []\<rparr>"

text \<open>The ordered run of chunks 0 to 6 for session \<open>s1\<close>, from \<open>w_init\<close>, in \<open>E_ok\<close> and
  in \<open>E_slow\<close>.\<close>

definition run_ok :: "world \<times> ProgressUpdate list" where
  "run_ok = process_in_order E_ok ''Assistant'' ''key'' ''s1'' [0, 1, 2, 3, 4, 5, 6] w_init"

definition run_slow :: "world \<times> ProgressUpdate list" where
  "run_slow = process_in_order E_slow ''Assistant'' ''key'' ''s1'' [0, 1, 2, 3, 4, 5, 6] w_init"

section \<open>Properties of executeTest\<close>

lemmas check_defs =
  fetchBotMetadata_def result_of_def no_metadata_def parseBotInformation_def
  testBotNameFormatting_def testProfilePicture_def testBrandConsistency_def testVerification_def
  testDescriptionClarity_def testAdvancedDocumentation_def testLimitationDocumentation_def
  testFileSupport_def testFileTypeAwareness_def testConversationCoherence_def testResponseTime_def

lemma executeTest_name:
  "executeTest E t b k sd w = (Inr r, sd', w') \<Longrightarrow> name r = t"
  unfolding executeTest_def Let_def
  by (auto split: option.splits if_splits prod.splits fetch_reply.splits
      simp: check_defs Let_def)

lemma executeTest_frame:
  "executeTest E t b k sd w = (res, sd', w') \<Longrightarrow>
     clock w' = clock w + int (elapsed E t (clock w)) \<and> sessions w' = sessions w \<and>
     results sd' = results sd \<and> botName_sd sd' = botName_sd sd"
  unfolding executeTest_def Let_def
  by (auto split: option.splits if_splits prod.splits fetch_reply.splits
      simp: fetchBotMetadata_def Let_def)



lemma executeTest_cached:
  "metadata sd = Some m \<Longrightarrow> executeTest E t b k sd w = (res, sd', w') \<Longrightarrow>
     metadata sd' = Some m \<and> pageFetches w' = pageFetches w"
  unfolding executeTest_def Let_def
  by (auto split: option.splits if_splits prod.splits fetch_reply.splits
      simp: fetchBotMetadata_def Let_def)

lemma executeTest_other:
  "t \<noteq> ''Fetch bot metadata'' \<Longrightarrow> executeTest E t b k sd w = (res, sd', w') \<Longrightarrow>
     sd' = sd \<and> pageFetches w' = pageFetches w"
  unfolding executeTest_def Let_def
  by (auto split: option.splits if_splits prod.splits fetch_reply.splits
      simp: fetchBotMetadata_def Let_def)

lemma executeTest_fetches:
  "executeTest E t b k sd w = (res, sd', w') \<Longrightarrow>
     pageFetches w' = pageFetches w \<or> pageFetches w' = pageFetches w @ [b]"
  unfolding executeTest_def Let_def
  by (auto split: option.splits if_splits prod.splits fetch_reply.splits
      simp: fetchBotMetadata_def Let_def)

lemma executeTest_metadata_mono:
  "executeTest E t b k sd w = (res, sd', w') \<Longrightarrow>
     metadata sd' = metadata sd \<or> (metadata sd = None \<and> metadata sd' \<noteq> None)"
  unfolding executeTest_def Let_def
  by (auto split: option.splits if_splits prod.splits fetch_reply.splits
      simp: fetchBotMetadata_def Let_def)


lemma started_names_append [simp]: "started_names (a @ b) = started_names a @ started_names b"
  by (simp add: started_names_def)
lemma completed_results_append [simp]:
  "completed_results (a @ b) = completed_results a @ completed_results b"
  by (simp add: completed_results_def)
lemma completed_names_append [simp]:
  "completed_names (a @ b) = completed_names a @ completed_names b"
  by (simp add: completed_names_def)
lemma next_chunks_append [simp]: "next_chunks (a @ b) = next_chunks a @ next_chunks b"
  by (simp add: next_chunks_def)
lemma scorecards_append [simp]: "scorecards (a @ b) = scorecards a @ scorecards b"
  by (simp add: scorecards_def)
lemma budget_exits_append [simp]: "budget_exits (a @ b) = budget_exits a @ budget_exits b"
  by (simp add: budget_exits_def)

lemma projections_Nil [simp]:
  "started_names [] = []" "completed_results [] = []" "completed_names [] = []"
  "next_chunks [] = []" "scorecards [] = []" "budget_exits [] = []"
  by (simp_all add: started_names_def completed_results_def completed_names_def
        next_chunks_def scorecards_def budget_exits_def)

lemma projections_Cons [simp]:
  "started_names (e # es) = started e @ started_names es"
  "completed_results (e # es) = completed e @ completed_results es"
  "completed_names (e # es) = map name (completed e) @ completed_names es"
  "next_chunks (e # es) = announced e @ next_chunks es"
  "scorecards (e # es) = delivered e @ scorecards es"
  "budget_exits (e # es) = (if budget_exit e then e # budget_exits es else budget_exits es)"
  by (simp_all add: started_names_def completed_results_def completed_names_def
        next_chunks_def scorecards_def budget_exits_def)

lemma run_tests_Cons:
  "run_tests E c i b k sid st (t # rest) (sd, w, out) =
    (if clock w - st > MAX_CHUNK_TIME
     then (True, sd, w, out @ [Chunk_complete ''Chunk timeout - continuing with next chunk'' (i + 1) sid])
     else run_tests E c i b k sid st rest (check_step E c b k sid t (sd, w, out)))"
  by (simp add: check_step_def Let_def split: prod.splits sum.splits)

lemma check_step_shape:
  assumes "check_step E c b k sid t (sd, w, out) = (sd', w', out')"
  shows "\<exists>r. out' = out @ [Test_start (chunk_category c) t (''Testing: '' @ t) sid,
                            Test_complete (chunk_category c) t r sid]
             \<and> name r = t
             \<and> results sd' = (results sd)(chunk_category c := results sd (chunk_category c) @ [r])
             \<and> botName_sd sd' = botName_sd sd
             \<and> sessions w' = sessions w
             \<and> clock w + int (elapsed E t (clock w)) \<le> clock w'"
proof (cases "executeTest E t b k sd w")
  case (fields res sd1 w1)
  note fr = executeTest_frame [OF fields]
  show ?thesis
  proof (cases res)
    case (Inl err)
    with fields assms fr show ?thesis
      by (auto simp: check_step_def Let_def push_result_def failedResult_def)
  next
    case (Inr r)
    with fields have "name r = t" using executeTest_name by blast
    with Inr fields assms fr show ?thesis
      by (auto simp: check_step_def Let_def push_result_def)
  qed
qed


declare run_tests.simps(2) [simp del]

lemma run_tests_shape:
  assumes "run_tests E c i b k sid st ts (sd, w, out) = (fl, sd', w', out')"
  shows "\<exists>new n. out' = out @ new \<and> n \<le> length ts
     \<and> started_names new = take n ts \<and> completed_names new = take n ts
     \<and> results sd' = (results sd)(chunk_category c := results sd (chunk_category c) @ completed_results new)
     \<and> botName_sd sd' = botName_sd sd
     \<and> scorecards new = []
     \<and> sessions w' = sessions w \<and> clock w \<le> clock w'
     \<and> (fl \<longrightarrow> n < length ts \<and> MAX_CHUNK_TIME < clock w' - st \<and> new \<noteq> []
              \<and> last new = timeout_event i sid \<and> next_chunks new = [i + 1]
              \<and> budget_exits new = [timeout_event i sid])
     \<and> (\<not> fl \<longrightarrow> n = length ts \<and> next_chunks new = [] \<and> budget_exits new = [])
     \<and> (ts = [] \<or> MAX_CHUNK_TIME < clock w - st \<or> 1 \<le> n)"
  using assms
proof (induction ts arbitrary: sd w out)
  case Nil
  then have "out' = out @ []" "sd' = sd" "w' = w" "\<not> fl" by simp_all
  then show ?case
    by (intro exI [of _ "[]"] exI [of _ "0::nat"])
       simp
next
  case (Cons t rest)
  show ?case
  proof (cases "clock w - st > MAX_CHUNK_TIME")
    case True
    with Cons.prems have "out' = out @ [timeout_event i sid]" "sd' = sd" "w' = w" "fl"
      by (simp_all add: run_tests_Cons timeout_event_def)
    with True show ?thesis
      by (intro exI [of _ "[timeout_event i sid]"] exI [of _ "0::nat"])
         (simp add: timeout_event_def)
  next
    case False
    obtain sd1 w1 out1 where step: "check_step E c b k sid t (sd, w, out) = (sd1, w1, out1)"
      by (cases "check_step E c b k sid t (sd, w, out)") auto
    from check_step_shape [OF step] obtain r where
      r: "out1 = out @ [Test_start (chunk_category c) t (''Testing: '' @ t) sid,
                        Test_complete (chunk_category c) t r sid]"
         "name r = t"
         "results sd1 = (results sd)(chunk_category c := results sd (chunk_category c) @ [r])"
         "botName_sd sd1 = botName_sd sd" "sessions w1 = sessions w"
         "clock w + int (elapsed E t (clock w)) \<le> clock w1"
      by blast
    from Cons.prems False step
    have "run_tests E c i b k sid st rest (sd1, w1, out1) = (fl, sd', w', out')"
      by (simp add: run_tests_Cons)
    from Cons.IH [OF this] obtain new n where
      ih: "out' = out1 @ new" "n \<le> length rest"
          "started_names new = take n rest" "completed_names new = take n rest"
          "results sd' = (results sd1)(chunk_category c := results sd1 (chunk_category c) @ completed_results new)"
          "botName_sd sd' = botName_sd sd1" "scorecards new = []"
          "sessions w' = sessions w1" "clock w1 \<le> clock w'"
          "fl \<longrightarrow> n < length rest \<and> MAX_CHUNK_TIME < clock w' - st \<and> new \<noteq> []
              \<and> last new = timeout_event i sid \<and> next_chunks new = [i + 1]
              \<and> budget_exits new = [timeout_event i sid]"
          "\<not> fl \<longrightarrow> n = length rest \<and> next_chunks new = [] \<and> budget_exits new = []"
      by blast
    let ?two = "[Test_start (chunk_category c) t (''Testing: '' @ t) sid,
                 Test_complete (chunk_category c) t r sid]"
    have res: "results sd' = (results sd)(chunk_category c := results sd (chunk_category c) @ completed_results (?two @ new))"
      using ih(5) r(3) by (simp add: fun_eq_iff)
    show ?thesis
      apply (intro exI [of _ "?two @ new"] exI [of _ "Suc n"])
      using ih r res False by simp
  qed
qed


lemma processChunk_shape:
  assumes c: "chunk_at i = Some c" and p: "processChunk E b k i sid w = (w', out)"
  shows "\<exists>fl sd1 new n tl.
      out = progress_event c i sid # new @ tl \<and> n \<le> length (tests c)
    \<and> started_names new = take n (tests c) \<and> completed_names new = take n (tests c)
    \<and> results sd1 = (results (session_or_fresh w sid b))
         (chunk_category c := results (session_or_fresh w sid b) (chunk_category c) @ completed_results new)
    \<and> botName_sd sd1 = botName_sd (session_or_fresh w sid b)
    \<and> scorecards new = [] \<and> clock w \<le> clock w'
    \<and> (tests c = [] \<or> 1 \<le> n)
    \<and> (fl \<longrightarrow> n < length (tests c) \<and> MAX_CHUNK_TIME < clock w' - clock w \<and> new \<noteq> []
            \<and> last new = timeout_event i sid \<and> next_chunks new = [i + 1]
            \<and> budget_exits new = [timeout_event i sid] \<and> tl = []
            \<and> sessions w' = (sessions w)(sid \<mapsto> sd1))
    \<and> (\<not> fl \<longrightarrow> n = length (tests c) \<and> next_chunks new = [] \<and> budget_exits new = []
            \<and> (if i \<ge> int (length TEST_CHUNKS) - 1
                then tl = [complete_event b sd1 sid] \<and> sessions w' = (sessions w)(sid := None)
                else tl = [Chunk_complete (chunk_name c @ '' complete'') (i + 1) sid]
                     \<and> sessions w' = (sessions w)(sid \<mapsto> sd1)))"
proof -
  let ?sd0 = "session_or_fresh w sid b"
  let ?out0 = "[progress_event c i sid]"
  obtain fl sd1 w1 out1 where
    run: "run_tests E c i b k sid (clock w) (tests c) (?sd0, w, ?out0) = (fl, sd1, w1, out1)"
    by (cases "run_tests E c i b k sid (clock w) (tests c) (?sd0, w, ?out0)") auto
  from run_tests_shape [OF run] obtain new n where
    sh: "out1 = ?out0 @ new" "n \<le> length (tests c)"
        "started_names new = take n (tests c)" "completed_names new = take n (tests c)"
        "results sd1 = (results ?sd0)(chunk_category c := results ?sd0 (chunk_category c) @ completed_results new)"
        "botName_sd sd1 = botName_sd ?sd0" "scorecards new = []"
        "sessions w1 = sessions w" "clock w \<le> clock w1"
        "fl \<longrightarrow> n < length (tests c) \<and> MAX_CHUNK_TIME < clock w1 - clock w \<and> new \<noteq> []
              \<and> last new = timeout_event i sid \<and> next_chunks new = [i + 1]
              \<and> budget_exits new = [timeout_event i sid]"
        "\<not> fl \<longrightarrow> n = length (tests c) \<and> next_chunks new = [] \<and> budget_exits new = []"
        "tests c = [] \<or> MAX_CHUNK_TIME < clock w - clock w \<or> 1 \<le> n"
    by blast
  from sh(12) have first: "tests c = [] \<or> 1 \<le> n"
    by (simp add: MAX_CHUNK_TIME_def)
  from p c run have res:
    "(w', out) =
      (if fl then (w1\<lparr>sessions := (sessions w1)(sid \<mapsto> sd1)\<rparr>, out1)
       else if i \<ge> int (length TEST_CHUNKS) - 1
       then (w1\<lparr>sessions := (sessions w1)(sid := None)\<rparr>, out1 @ [complete_event b sd1 sid])
       else (w1\<lparr>sessions := (sessions w1)(sid \<mapsto> sd1)\<rparr>,
             out1 @ [Chunk_complete (chunk_name c @ '' complete'') (i + 1) sid]))"
    by (cases fl)
       (auto simp: processChunk_def Let_def session_or_fresh_def progress_event_def
          complete_event_def split: option.splits if_splits)
  show ?thesis
  proof (cases fl)
    case True
    with res sh(1-11) first show ?thesis
      by (intro exI [of _ True] exI [of _ sd1] exI [of _ new] exI [of _ n] exI [of _ "[]"]) simp
  next
    case False
    show ?thesis
    proof (cases "i \<ge> int (length TEST_CHUNKS) - 1")
      case True
      with False res sh(1-11) first show ?thesis
        by (intro exI [of _ False] exI [of _ sd1] exI [of _ new] exI [of _ n]
              exI [of _ "[complete_event b sd1 sid]"]) simp
    next
      case ge: False
      with False res sh(1-11) first show ?thesis
        by (intro exI [of _ False] exI [of _ sd1] exI [of _ new] exI [of _ n]
              exI [of _ "[Chunk_complete (chunk_name c @ '' complete'') (i + 1) sid]"]) simp
    qed
  qed
qed

section \<open>The shape of the chunk table\<close>

lemma length_TEST_CHUNKS: "length TEST_CHUNKS = 7"
  by (simp add: TEST_CHUNKS_def)

lemma chunk_at_cases:
  assumes "chunk_at i = Some c"
  shows "c \<in> set TEST_CHUNKS \<and> 0 \<le> i \<and> i \<le> 6 \<and> c = TEST_CHUNKS ! nat i"
proof -
  from assms have "0 \<le> i" "i < int (length TEST_CHUNKS)" "c = TEST_CHUNKS ! nat i"
    by (auto simp: chunk_at_def split: if_splits)
  then show ?thesis
    using nth_mem [of "nat i" TEST_CHUNKS] by (simp add: length_TEST_CHUNKS)
qed

lemma progress_event_proj [simp]:
  "started (progress_event c i sid) = []" "completed (progress_event c i sid) = []"
  "announced (progress_event c i sid) = []" "delivered (progress_event c i sid) = []"
  "budget_exit (progress_event c i sid) = False"
  by (simp_all add: progress_event_def)

lemma complete_event_proj [simp]:
  "started (complete_event b sd sid) = []" "completed (complete_event b sd sid) = []"
  "announced (complete_event b sd sid) = []"
  "budget_exit (complete_event b sd sid) = False"
  by (simp_all add: complete_event_def)

lemma timeout_event_proj [simp]:
  "started (timeout_event i sid) = []" "completed (timeout_event i sid) = []"
  "announced (timeout_event i sid) = [i + 1]" "delivered (timeout_event i sid) = []"
  "budget_exit (timeout_event i sid) = True"
  by (simp_all add: timeout_event_def)

lemma processChunk_cases [consumes 2, case_names budget_exit last_chunk next_chunk]:
  assumes "chunk_at i = Some c" and "processChunk E b k i sid w = (w', out)"
  obtains
    (budget_exit) sd1 new n where
      "out = progress_event c i sid # new" "n < length (tests c)" "1 \<le> n"
      "started_names new = take n (tests c)" "completed_names new = take n (tests c)"
      "results sd1 = (results (session_or_fresh w sid b))
         (chunk_category c := results (session_or_fresh w sid b) (chunk_category c) @ completed_results new)"
      "botName_sd sd1 = botName_sd (session_or_fresh w sid b)"
      "scorecards new = []" "clock w \<le> clock w'" "MAX_CHUNK_TIME < clock w' - clock w"
      "new \<noteq> []" "last new = timeout_event i sid" "next_chunks new = [i + 1]"
      "budget_exits new = [timeout_event i sid]" "sessions w' = (sessions w)(sid \<mapsto> sd1)"
  | (last_chunk) sd1 new where
      "i = 6" "out = progress_event c i sid # new @ [complete_event b sd1 sid]"
      "started_names new = tests c" "completed_names new = tests c"
      "results sd1 = (results (session_or_fresh w sid b))
         (chunk_category c := results (session_or_fresh w sid b) (chunk_category c) @ completed_results new)"
      "botName_sd sd1 = botName_sd (session_or_fresh w sid b)"
      "scorecards new = []" "clock w \<le> clock w'" "next_chunks new = []" "budget_exits new = []"
      "sessions w' = (sessions w)(sid := None)"
  | (next_chunk) sd1 new where
      "i < 6"
      "out = progress_event c i sid # new @ [Chunk_complete (chunk_name c @ '' complete'') (i + 1) sid]"
      "started_names new = tests c" "completed_names new = tests c"
      "results sd1 = (results (session_or_fresh w sid b))
         (chunk_category c := results (session_or_fresh w sid b) (chunk_category c) @ completed_results new)"
      "botName_sd sd1 = botName_sd (session_or_fresh w sid b)"
      "scorecards new = []" "clock w \<le> clock w'" "next_chunks new = []" "budget_exits new = []"
      "sessions w' = (sessions w)(sid \<mapsto> sd1)"
proof -
  from chunk_at_cases [OF assms(1)] have ne: "tests c \<noteq> []" and le: "i \<le> 6"
    by (auto simp: TEST_CHUNKS_def)
  from processChunk_shape [OF assms] obtain fl sd1 new n tl where
    sh: "out = progress_event c i sid # new @ tl" "n \<le> length (tests c)"
        "started_names new = take n (tests c)" "completed_names new = take n (tests c)"
        "results sd1 = (results (session_or_fresh w sid b))
           (chunk_category c := results (session_or_fresh w sid b) (chunk_category c) @ completed_results new)"
        "botName_sd sd1 = botName_sd (session_or_fresh w sid b)"
        "scorecards new = []" "clock w \<le> clock w'"
        "tests c = [] \<or> 1 \<le> n"
        "fl \<longrightarrow> n < length (tests c) \<and> MAX_CHUNK_TIME < clock w' - clock w \<and> new \<noteq> []
            \<and> last new = timeout_event i sid \<and> next_chunks new = [i + 1]
            \<and> budget_exits new = [timeout_event i sid] \<and> tl = []
            \<and> sessions w' = (sessions w)(sid \<mapsto> sd1)"
        "\<not> fl \<longrightarrow> n = length (tests c) \<and> next_chunks new = [] \<and> budget_exits new = []
            \<and> (if i \<ge> int (length TEST_CHUNKS) - 1
                then tl = [complete_event b sd1 sid] \<and> sessions w' = (sessions w)(sid := None)
                else tl = [Chunk_complete (chunk_name c @ '' complete'') (i + 1) sid]
                     \<and> sessions w' = (sessions w)(sid \<mapsto> sd1))"
    by (elim exE conjE) (rule that, assumption+)
  show thesis
  proof (cases fl)
    case True
    with sh ne show thesis
      by (intro budget_exit [of new n sd1]) simp_all
  next
    case False
    show thesis
    proof (cases "i \<ge> 6")
      case True
      with False sh le show thesis
        by (intro last_chunk [of new sd1]) (simp_all add: length_TEST_CHUNKS)
    next
      case nl: False
      with False sh show thesis
        by (intro next_chunk [of new sd1]) (simp_all add: length_TEST_CHUNKS)
    qed
  qed
qed

section \<open>The overall score\<close>

lemma foldl_score_sum:
  "foldl (\<lambda>sum r. sum + score_or_0 r) a rs = a + sum_list (map score_or_0 rs)"
  by (induction rs arbitrary: a) simp_all

lemma computeOverallScore_round:
  "rs \<noteq> [] \<Longrightarrow>
     computeOverallScore rs =
       Some (round ((\<Sum>r\<leftarrow>rs. real_of_int (case score r of None \<Rightarrow> 0 | Some x \<Rightarrow> x))
                     / real (length rs)))"
proof -
  have "real_of_int (sum_list (map score_or_0 rs))
          = (\<Sum>r\<leftarrow>rs. real_of_int (case score r of None \<Rightarrow> 0 | Some x \<Rightarrow> x))"
    by (induction rs) (simp_all add: score_or_0_def)
  then show "rs \<noteq> [] \<Longrightarrow> ?thesis"
    by (simp add: computeOverallScore_def foldl_score_sum Math_round_def round_def)
qed

lemma no_scorecard_no_complete:
  "scorecards xs = [] \<Longrightarrow> Complete sc p m s \<notin> set xs"
  by (induction xs) (auto split: if_splits)

section \<open>One invocation and the ordered run, summarised\<close>

lemma chunk_at_numeral:
  "chunk_at 0 = Some (TEST_CHUNKS ! 0)" "chunk_at 1 = Some (TEST_CHUNKS ! 1)"
  "chunk_at 2 = Some (TEST_CHUNKS ! 2)" "chunk_at 3 = Some (TEST_CHUNKS ! 3)"
  "chunk_at 4 = Some (TEST_CHUNKS ! 4)" "chunk_at 5 = Some (TEST_CHUNKS ! 5)"
  "chunk_at 6 = Some (TEST_CHUNKS ! 6)"
  by (simp_all add: chunk_at_def length_TEST_CHUNKS)

lemma normal_end_is_no_budget_exit:
  assumes "chunk_at i = Some c"
  shows "\<not> budget_exit (Chunk_complete (chunk_name c @ '' complete'') n sid)"
  using chunk_at_cases [OF assms] by (auto simp: TEST_CHUNKS_def)

lemma tests_nonempty:
  assumes "chunk_at i = Some c"
  shows "Suc 0 \<le> length (tests c)"
  using chunk_at_cases [OF assms] by (auto simp: TEST_CHUNKS_def)

lemma processChunk_summary:
  assumes "chunk_at i = Some c" and "processChunk E b k i sid w = (w', out)"
  shows "\<exists>n. 1 \<le> n \<and> n \<le> length (tests c) \<and> completed_names out = take n (tests c)
           \<and> (budget_exits out = [] \<longleftrightarrow> n = length (tests c))
           \<and> (budget_exits out = [] \<longrightarrow>
                 (if i = 6 then sessions w' sid = None \<and> length (scorecards out) = 1
                                \<and> next_chunks out = []
                  else scorecards out = [] \<and> next_chunks out = [i + 1]))
           \<and> (scorecards out = [] \<longrightarrow> sessions w' sid \<noteq> None)
           \<and> (scorecards out \<noteq> [] \<longrightarrow> sessions w' sid = None)
           \<and> (\<forall>s. s = sid \<or> sessions w' s = sessions w s)
           \<and> (\<forall>sd. sessions w' sid = Some sd \<longrightarrow>
                  botName_sd sd = botName_sd (session_or_fresh w sid b))"
  using assms
proof (cases rule: processChunk_cases)
  case (budget_exit sd1 new n)
  then show ?thesis
    by (intro exI [of _ n]) simp
next
  case (last_chunk sd1 new)
  with tests_nonempty [OF assms(1)] show ?thesis
    by (intro exI [of _ "length (tests c)"]) (simp add: complete_event_def)
next
  case (next_chunk sd1 new)
  with normal_end_is_no_budget_exit [OF assms(1)] tests_nonempty [OF assms(1)] show ?thesis
    by (intro exI [of _ "length (tests c)"]) simp
qed

lemma process_in_order_seven:
  assumes "process_in_order E b k sid [0, 1, 2, 3, 4, 5, 6] w = (w', out)"
  obtains w1 w2 w3 w4 w5 w6 o0 o1 o2 o3 o4 o5 o6 where
    "processChunk E b k 0 sid w = (w1, o0)" "processChunk E b k 1 sid w1 = (w2, o1)"
    "processChunk E b k 2 sid w2 = (w3, o2)" "processChunk E b k 3 sid w3 = (w4, o3)"
    "processChunk E b k 4 sid w4 = (w5, o4)" "processChunk E b k 5 sid w5 = (w6, o5)"
    "processChunk E b k 6 sid w6 = (w', o6)" "out = o0 @ o1 @ o2 @ o3 @ o4 @ o5 @ o6"
  using assms by (auto split: prod.splits)

section \<open>Prefixes of the chunk lists\<close>

lemma set_takes: "set (concat (map2 take ns xss)) \<subseteq> set (concat xss)"
proof (induction xss arbitrary: ns)
  case Nil
  then show ?case by simp
next
  case (Cons xs xss)
  show ?case
  proof (cases ns)
    case Nil
    then show ?thesis by simp
  next
    case (Cons n ns')
    with Cons.IH [of ns'] set_take_subset [of n xs] show ?thesis by auto
  qed
qed

lemma distinct_takes: "distinct (concat xss) \<Longrightarrow> distinct (concat (map2 take ns xss))"
proof (induction xss arbitrary: ns)
  case Nil
  then show ?case by simp
next
  case (Cons xs xss)
  show ?case
  proof (cases ns)
    case Nil
    then show ?thesis by simp
  next
    case c: (Cons n ns')
    from Cons.prems have d: "distinct xs" "distinct (concat xss)"
      "set xs \<inter> set (concat xss) = {}" by simp_all
    from d(3) set_takes [of ns' xss] set_take_subset [of n xs]
    have "set (take n xs) \<inter> set (concat (map2 take ns' xss)) = {}" by blast
    with c d(1) Cons.IH [OF d(2), of ns'] show ?thesis by simp
  qed
qed

lemma registry_distinct: "distinct registry"
  by (simp add: registry_def TEST_CHUNKS_def)

lemma registry_chunks:
  "registry = tests (TEST_CHUNKS ! 0) @ tests (TEST_CHUNKS ! 1) @ tests (TEST_CHUNKS ! 2)
     @ tests (TEST_CHUNKS ! 3) @ tests (TEST_CHUNKS ! 4) @ tests (TEST_CHUNKS ! 5)
     @ tests (TEST_CHUNKS ! 6)"
  by (simp add: registry_def TEST_CHUNKS_def)

lemma takes_registry:
  "concat (map2 take [n0, n1, n2, n3, n4, n5, n6] (map tests TEST_CHUNKS)) =
     take n0 (tests (TEST_CHUNKS ! 0)) @ take n1 (tests (TEST_CHUNKS ! 1))
     @ take n2 (tests (TEST_CHUNKS ! 2)) @ take n3 (tests (TEST_CHUNKS ! 3))
     @ take n4 (tests (TEST_CHUNKS ! 4)) @ take n5 (tests (TEST_CHUNKS ! 5))
     @ take n6 (tests (TEST_CHUNKS ! 6))"
  by (simp add: TEST_CHUNKS_def)

lemma chunk_lengths:
  "length (tests (TEST_CHUNKS ! 0)) = 2" "length (tests (TEST_CHUNKS ! 1)) = 4"
  "length (tests (TEST_CHUNKS ! 2)) = 3" "length (tests (TEST_CHUNKS ! 3)) = 3"
  "length (tests (TEST_CHUNKS ! 4)) = 4" "length (tests (TEST_CHUNKS ! 5)) = 2"
  "length (tests (TEST_CHUNKS ! 6)) = 1"
  by (simp_all add: TEST_CHUNKS_def)

section \<open>Metadata and page fetches\<close>

lemma check_step_cached:
  assumes "metadata sd = Some m"
      and "check_step E c b k sid t (sd, w, out) = (sd', w', out')"
  shows "metadata sd' = Some m \<and> pageFetches w' = pageFetches w"
proof (cases "executeTest E t b k sd w")
  case (fields res sd1 w1)
  from executeTest_cached [OF assms(1) fields] fields assms(2) show ?thesis
    by (cases res) (auto simp: check_step_def Let_def push_result_def)
qed

lemma check_step_fetches:
  assumes "check_step E c b k sid t (sd, w, out) = (sd', w', out')"
  shows "(t \<noteq> ''Fetch bot metadata'' \<longrightarrow> metadata sd' = metadata sd \<and> pageFetches w' = pageFetches w)
       \<and> (pageFetches w' = pageFetches w \<or> pageFetches w' = pageFetches w @ [b])
       \<and> (metadata sd' = metadata sd \<or> (metadata sd = None \<and> metadata sd' \<noteq> None))"
proof (cases "executeTest E t b k sd w")
  case (fields res sd1 w1)
  from executeTest_other [OF _ fields] executeTest_fetches [OF fields]
    executeTest_metadata_mono [OF fields] fields assms show ?thesis
    by (cases res) (auto simp: check_step_def Let_def push_result_def)
qed

lemma run_tests_cached:
  assumes "metadata sd = Some m"
      and "run_tests E c i b k sid st ts (sd, w, out) = (fl, sd', w', out')"
  shows "metadata sd' = Some m \<and> pageFetches w' = pageFetches w"
  using assms
proof (induction ts arbitrary: sd w out)
  case Nil
  then show ?case by simp
next
  case (Cons t rest)
  show ?case
  proof (cases "clock w - st > MAX_CHUNK_TIME")
    case True
    with Cons.prems show ?thesis by (simp add: run_tests_Cons)
  next
    case False
    obtain sd1 w1 out1 where step: "check_step E c b k sid t (sd, w, out) = (sd1, w1, out1)"
      by (cases "check_step E c b k sid t (sd, w, out)") auto
    from check_step_cached [OF Cons.prems(1) step]
    have m1: "metadata sd1 = Some m" and f1: "pageFetches w1 = pageFetches w" by simp_all
    from Cons.prems(2) False step
    have "run_tests E c i b k sid st rest (sd1, w1, out1) = (fl, sd', w', out')"
      by (simp add: run_tests_Cons)
    from Cons.IH [OF m1 this] f1 show ?thesis by simp
  qed
qed

lemma run_tests_fetches:
  assumes "run_tests E c i b k sid st ts (sd, w, out) = (fl, sd', w', out')"
  shows "(\<exists>extra. pageFetches w' = pageFetches w @ extra
            \<and> length extra \<le> count_list ts ''Fetch bot metadata'')
       \<and> (metadata sd' = metadata sd \<or> (metadata sd = None \<and> metadata sd' \<noteq> None))"
  using assms
proof (induction ts arbitrary: sd w out)
  case Nil
  then show ?case by simp
next
  case (Cons t rest)
  show ?case
  proof (cases "clock w - st > MAX_CHUNK_TIME")
    case True
    with Cons.prems show ?thesis by (simp add: run_tests_Cons)
  next
    case False
    obtain sd1 w1 out1 where step: "check_step E c b k sid t (sd, w, out) = (sd1, w1, out1)"
      by (cases "check_step E c b k sid t (sd, w, out)") auto
    note s = check_step_fetches [OF step]
    from Cons.prems False step
    have "run_tests E c i b k sid st rest (sd1, w1, out1) = (fl, sd', w', out')"
      by (simp add: run_tests_Cons)
    from Cons.IH [OF this] obtain extra where
      ih: "pageFetches w' = pageFetches w1 @ extra"
          "length extra \<le> count_list rest ''Fetch bot metadata''"
          "metadata sd' = metadata sd1 \<or> (metadata sd1 = None \<and> metadata sd' \<noteq> None)"
      by blast
    from s have "\<exists>e1. pageFetches w1 = pageFetches w @ e1
        \<and> length e1 \<le> (if t = ''Fetch bot metadata'' then 1 else 0)"
      by (cases "t = ''Fetch bot metadata''") auto
    then obtain e1 where e1: "pageFetches w1 = pageFetches w @ e1"
        "length e1 \<le> (if t = ''Fetch bot metadata'' then 1 else 0)" by blast
    have "pageFetches w' = pageFetches w @ (e1 @ extra)
        \<and> length (e1 @ extra) \<le> count_list (t # rest) ''Fetch bot metadata''"
      using ih(1,2) e1 by (cases "t = ''Fetch bot metadata''") auto
    moreover have "metadata sd' = metadata sd \<or> (metadata sd = None \<and> metadata sd' \<noteq> None)"
      using ih(3) s by auto
    ultimately show ?thesis by blast
  qed
qed

lemma processChunk_world:
  assumes "processChunk E b k i sid w = (w', out)"
  shows "\<exists>c fl sd1 w1 out1. chunk_at i = Some c
       \<and> run_tests E c i b k sid (clock w) (tests c) (session_or_fresh w sid b, w, [progress_event c i sid])
           = (fl, sd1, w1, out1)
       \<and> pageFetches w' = pageFetches w1
       \<and> (\<forall>sd'. sessions w' sid = Some sd' \<longrightarrow> sd' = sd1)
     \<or> chunk_at i = None \<and> w' = w"
proof (cases "chunk_at i")
  case None
  with assms show ?thesis by (simp add: processChunk_def)
next
  case (Some c)
  obtain fl sd1 w1 out1 where
    run: "run_tests E c i b k sid (clock w) (tests c) (session_or_fresh w sid b, w, [progress_event c i sid])
            = (fl, sd1, w1, out1)"
    by (cases "run_tests E c i b k sid (clock w) (tests c) (session_or_fresh w sid b, w, [progress_event c i sid])") auto
  with assms Some have "pageFetches w' = pageFetches w1 \<and> (\<forall>sd'. sessions w' sid = Some sd' \<longrightarrow> sd' = sd1)"
    by (cases fl)
       (auto simp: processChunk_def Let_def session_or_fresh_def progress_event_def
          split: option.splits if_splits)
  with Some run show ?thesis by blast
qed

lemma fetch_check_only_in_chunk_0:
  assumes "chunk_at i = Some c"
  shows "count_list (tests c) ''Fetch bot metadata'' = (if i = 0 then 1 else 0)"
proof -
  from chunk_at_cases [OF assms] have c: "c = TEST_CHUNKS ! nat i" and "0 \<le> i" "i \<le> 6"
    by simp_all
  then have "i = 0 \<or> i = 1 \<or> i = 2 \<or> i = 3 \<or> i = 4 \<or> i = 5 \<or> i = 6" by arith
  with c show ?thesis
    by (elim disjE) (simp_all add: TEST_CHUNKS_def)
qed

lemma processChunk_fetches:
  assumes "processChunk E b k i sid w = (w', out)"
  shows "\<exists>extra. pageFetches w' = pageFetches w @ extra
           \<and> length extra \<le> (if i = 0 then 1 else 0)"
proof -
  from processChunk_world [OF assms] show ?thesis
  proof (elim disjE exE conjE)
    fix c fl sd1 w1 out1
    assume c: "chunk_at i = Some c"
      and run: "run_tests E c i b k sid (clock w) (tests c)
                  (session_or_fresh w sid b, w, [progress_event c i sid]) = (fl, sd1, w1, out1)"
      and f: "pageFetches w' = pageFetches w1"
    from run_tests_fetches [OF run] fetch_check_only_in_chunk_0 [OF c] f
    show ?thesis by auto
  next
    assume "chunk_at i = None" "w' = w"
    then show ?thesis by simp
  qed
qed

section \<open>The client trace\<close>

lemma requests_and_waits_simps [simp]:
  "requests_and_waits [] = []"
  "requests_and_waits (a # acts) = (if request_or_wait a then a # requests_and_waits acts else requests_and_waits acts)"
  "requests_and_waits (xs @ ys) = requests_and_waits xs @ requests_and_waits ys"
  by (simp_all add: requests_and_waits_def)

lemma consume_no_requests:
  "requests_and_waits (snd (snd (snd (consume evs sid nxt)))) = []"
proof (induction evs arbitrary: sid nxt)
  case Nil
  then show ?case by simp
next
  case (Cons a evs)
  let ?sid = "if sessionId_of a \<noteq> [] \<and> falsy sid then Some (sessionId_of a) else sid"
  let ?nxt = "case a of Chunk_complete m n s \<Rightarrow> Some n | _ \<Rightarrow> nxt"
  from Cons.IH [of ?sid ?nxt] show ?case
    by (cases "consume evs ?sid ?nxt") (simp add: Let_def)
qed

lemma handled_no_requests [simp]: "requests_and_waits (handled evs sid) = []"
  by (simp add: handled_def consume_no_requests)

lemma failure_step:
  assumes "\<not> completes evs sid"
  shows "runChunkedAnalysis (Transport_failure evs msg # answers) c sid r =
           Request c sid # handled evs sid @
           (if r < MAX_RETRIES then
              [Status_message (''Connection lost, retrying in '' @ digits (2 ^ r * 1000 div 1000)
                 @ ''s... (attempt '' @ digits (r + 1) @ ''/'' @ digits MAX_RETRIES @ '')''),
               Sleep (2 ^ r * 1000)]
              @ runChunkedAnalysis answers c sid (r + 1)
            else [Alert (''Analysis failed after '' @ digits MAX_RETRIES @ '' retries: '' @ msg),
                  SetIsRunning False])"
proof (cases "consume evs sid None")
  case (fields d s' n acts)
  with assms have "d = False" by (simp add: completes_def)
  with fields show ?thesis by (simp add: handled_def Let_def)
qed

section \<open>The pause after a check\<close>





section \<open>Evaluation on concrete inputs\<close>

lemmas eval_defs =
  processChunk_def chunk_at_def TEST_CHUNKS_def run_tests.simps executeTest_def check_defs
  Let_def push_result_def fresh_session_def MAX_CHUNK_TIME_def failedResult_def
  E_ok_def E_slow_def E_down_def E_reject_def w_init_def w_partial_def
  api_checks_def verdict_of_def judge_ok_def judgeText_ok_def probe_ok_def probe_slow_def
  elapsed_ok_def elapsed_slow_def
  stored_names_def
  computeOverallScore_def allResults_def score_or_0_def Math_round_def

lemma run_ok_within_budget: "budget_exits (snd run_ok) = []"
  by (simp add: run_ok_def eval_defs)

lemma run_slow_completed:
  "completed_names (snd run_slow) =
     [''Fetch bot metadata'', ''Parse bot information'',
      ''Bot name consistency and formatting'', ''Profile picture appeal and quality'',
      ''Brand consistency with model family'', ''Official verification and credibility'',
      ''Description clarity for non-technical users'', ''Advanced behavior documentation'',
      ''Limitation documentation'',
      ''PNG support'', ''GIF support'', ''Multi-turn conversation coherence'',
      ''Helpful error messages'']"
  by (simp add: run_slow_def eval_defs)

section \<open>Claims\<close>

text \<open>
  C10. A chunk index of 7 or more is outside \<^verbatim>\<open>TEST_CHUNKS\<close>: \<open>processChunk\<close> returns at
  once, having enqueued no event of any kind and leaving the session map as it was (no
  entry created, changed or deleted). The \<open>POST\<close> handler leaves the map unchanged too,
  and for a request it accepts (bot name and API key present) its response is the closed
  stream with zero events.
\<close>

theorem out_of_range_chunk_emits_nothing:
  "7 \<le> chunkIndex \<Longrightarrow>
     processChunk E botName apiKey chunkIndex sessionId w = (w, []) \<and>
     snd (POST E \<lparr>botName_req = botName, apiKey_req = apiKey,
                   chunk_req = Some chunkIndex, sessionId_req = provided\<rparr> w) = w \<and>
     (botName \<noteq> [] \<and> apiKey \<noteq> [] \<longrightarrow>
        fst (POST E \<lparr>botName_req = botName, apiKey_req = apiKey,
                      chunk_req = Some chunkIndex, sessionId_req = provided\<rparr> w)
          = Event_stream [] True)"
  by (simp add: processChunk_def chunk_at_def TEST_CHUNKS_def POST_def Let_def)

theorem out_of_range_chunk_emits_nothing_witness:
  "processChunk E_ok ''Assistant'' ''key'' 7 ''s1'' w_init = (w_init, []) \<and>
   POST E_ok \<lparr>botName_req = ''Assistant'', apiKey_req = ''key'',
               chunk_req = Some 7, sessionId_req = Some ''s1''\<rparr> w_init
     = (Event_stream [] True, w_init)"
  using out_of_range_chunk_emits_nothing
    [where chunkIndex = 7 and E = E_ok and botName = "''Assistant''" and apiKey = "''key''"
       and sessionId = "''s1''" and w = w_init and provided = "Some ''s1''"]
  by (simp add: prod_eq_iff)

text \<open>
  C1, as the claim states it, fails: the Chunk Executor never looks for an entry of the
  same name. With \<open>E_ok\<close>, chunk 0 processed twice for session \<open>s1\<close> leaves four entries
  in the \<open>usability\<close> collection, the two names twice each, where the first processing
  left two.
\<close>

theorem retried_chunk_duplicates_counterexample:
  "stored_names (fst (processChunk E_ok ''Assistant'' ''key'' 0 ''s1'' w_init)) ''s1'' usability
     = Some [''Fetch bot metadata'', ''Parse bot information''] \<and>
   stored_names
     (fst (processChunk E_ok ''Assistant'' ''key'' 0 ''s1''
        (fst (processChunk E_ok ''Assistant'' ''key'' 0 ''s1'' w_init)))) ''s1'' usability
     = Some [''Fetch bot metadata'', ''Parse bot information'',
             ''Fetch bot metadata'', ''Parse bot information'']"
  by (simp add: eval_defs)

text \<open>
  C1, amended. For every chunk execution that leaves the session in the store, the
  collection of the chunk's category is the collection the invocation found, followed by
  the results of the \<^verbatim>\<open>test_complete\<close> events it emitted, in order: every completed check
  is appended, whether or not an entry of its name is already there, so the number of
  entries grows by the number of checks completed; the entries already there keep their
  position and content, and the other categories are unchanged.
\<close>

theorem completed_checks_are_appended:
  assumes "chunk_at chunkIndex = Some c"
      and "processChunk E botName apiKey chunkIndex sessionId w = (w', out)"
      and "sessions w' sessionId = Some sd'"
  shows "results sd' (chunk_category c) =
           results (session_or_fresh w sessionId botName) (chunk_category c) @ completed_results out
       \<and> length (results sd' (chunk_category c)) =
           length (results (session_or_fresh w sessionId botName) (chunk_category c))
             + length (completed_names out)
       \<and> (\<forall>cat. cat = chunk_category c \<or>
             results sd' cat = results (session_or_fresh w sessionId botName) cat)"
proof -
  from processChunk_shape [OF assms(1,2)] obtain fl sd1 new n tl where
    sh: "out = progress_event c chunkIndex sessionId # new @ tl"
        "results sd1 = (results (session_or_fresh w sessionId botName))
           (chunk_category c := results (session_or_fresh w sessionId botName) (chunk_category c) @ completed_results new)"
        "fl \<longrightarrow> tl = [] \<and> sessions w' = (sessions w)(sessionId \<mapsto> sd1)"
        "\<not> fl \<longrightarrow> (if chunkIndex \<ge> int (length TEST_CHUNKS) - 1
                then tl = [complete_event botName sd1 sessionId] \<and> sessions w' = (sessions w)(sessionId := None)
                else tl = [Chunk_complete (chunk_name c @ '' complete'') (chunkIndex + 1) sessionId]
                     \<and> sessions w' = (sessions w)(sessionId \<mapsto> sd1))"
    by blast
  from sh(3,4) assms(3) have "sd' = sd1 \<and> completed_results tl = []"
    by (cases fl; cases "chunkIndex \<ge> int (length TEST_CHUNKS) - 1") auto
  with sh(1,2) show ?thesis
    by (simp add: completed_names_def)
qed

theorem completed_checks_are_appended_witness:
  "chunk_at 0 = Some (TEST_CHUNKS ! 0) \<and>
   stored_names (fst (processChunk E_ok ''Assistant'' ''key'' 0 ''s1'' w_init)) ''s1'' usability
     = Some (completed_names (snd (processChunk E_ok ''Assistant'' ''key'' 0 ''s1'' w_init))) \<and>
   completed_names (snd (processChunk E_ok ''Assistant'' ''key'' 0 ''s1'' w_init))
     = [''Fetch bot metadata'', ''Parse bot information'']"
  using completed_checks_are_appended
    [where chunkIndex = 0 and c = "TEST_CHUNKS ! 0" and E = E_ok and botName = "''Assistant''"
       and apiKey = "''key''" and sessionId = "''s1''" and w = w_init
       and w' = "fst (processChunk E_ok ''Assistant'' ''key'' 0 ''s1'' w_init)"
       and out = "snd (processChunk E_ok ''Assistant'' ''key'' 0 ''s1'' w_init)"]
  by (simp add: eval_defs completed_names_def)



text \<open>
  C3, as the claim states it, fails in its last part: the budget is tested only before a
  check starts, so the check that runs over the budget is started and completed. With
  \<open>E_slow\<close> (an API that answers after nine seconds), chunk 6 starts and completes its
  only check, returns 9200 ms after entry and enqueues no \<^verbatim>\<open>chunk_complete\<close> at all;
  chunk 3 starts \<^verbatim>\<open>PNG support\<close>, the check that takes the chunk over its budget.
\<close>

theorem over_budget_check_is_started_counterexample:
  "started_names (snd (processChunk E_slow ''Assistant'' ''key'' 6 ''s1'' w_init))
     = [''Helpful error messages''] \<and>
   completed_names (snd (processChunk E_slow ''Assistant'' ''key'' 6 ''s1'' w_init))
     = tests (TEST_CHUNKS ! 6) \<and>
   next_chunks (snd (processChunk E_slow ''Assistant'' ''key'' 6 ''s1'' w_init)) = [] \<and>
   clock (fst (processChunk E_slow ''Assistant'' ''key'' 6 ''s1'' w_init)) - clock w_init = 9200 \<and>
   MAX_CHUNK_TIME = 8000 \<and>
   started_names (snd (processChunk E_slow ''Assistant'' ''key'' 3 ''s1'' w_init))
     = [''PNG support''] \<and>
   elapsed E_slow ''PNG support'' (clock w_init) = 9000"
  by (simp add: eval_defs)

text \<open>
  C3, amended. The budget of 8000 ms, measured from the start of the loop, is tested
  before each check and nowhere else. If the elapsed time exceeds it at that point, no
  further check is started, \<^verbatim>\<open>chunk_complete\<close> with \<^verbatim>\<open>nextChunk = chunkIndex + 1\<close> is
  enqueued and the invocation returns with the session unchanged by that step. If it
  does not, the check is started and completed, however long it then takes. So for every
  in-range invocation the checks started are a prefix of the chunk's list, the first
  check is always among them, each started check completes, and when the prefix is
  proper the last event is the timeout \<^verbatim>\<open>chunk_complete\<close> and more than the budget has
  elapsed.
\<close>

theorem budget_is_checked_before_each_check:
  assumes "chunk_at chunkIndex = Some c"
      and "processChunk E botName apiKey chunkIndex sessionId w = (w', out)"
  shows "(\<exists>n. 1 \<le> n \<and> n \<le> length (tests c)
           \<and> started_names out = take n (tests c) \<and> completed_names out = take n (tests c)
           \<and> (n < length (tests c) \<longrightarrow>
                 last out = Chunk_complete ''Chunk timeout - continuing with next chunk''
                              (chunkIndex + 1) sessionId
               \<and> next_chunks out = [chunkIndex + 1]
               \<and> MAX_CHUNK_TIME < clock w' - clock w)
           \<and> (n = length (tests c) \<longrightarrow> budget_exits out = []))
     \<and> (MAX_CHUNK_TIME < clock v - startTime \<longrightarrow>
           run_tests E c chunkIndex botName apiKey sessionId startTime (t # rest) (sd, v, acc) =
             (True, sd, v,
              acc @ [Chunk_complete ''Chunk timeout - continuing with next chunk''
                       (chunkIndex + 1) sessionId]))
     \<and> (\<not> MAX_CHUNK_TIME < clock v - startTime \<longrightarrow>
           (\<exists>sd1 v1 r.
              run_tests E c chunkIndex botName apiKey sessionId startTime (t # rest) (sd, v, acc) =
                run_tests E c chunkIndex botName apiKey sessionId startTime rest
                  (sd1, v1,
                   acc @ [Test_start (chunk_category c) t (''Testing: '' @ t) sessionId,
                          Test_complete (chunk_category c) t r sessionId])
            \<and> clock v + int (elapsed E t (clock v)) \<le> clock v1))"
proof -
  from chunk_at_cases [OF assms(1)] have ne: "tests c \<noteq> []"
    by (auto simp: TEST_CHUNKS_def)
  from processChunk_shape [OF assms] obtain fl sd1 new n tl where
    sh: "out = progress_event c chunkIndex sessionId # new @ tl" "n \<le> length (tests c)"
        "started_names new = take n (tests c)" "completed_names new = take n (tests c)"
        "tests c = [] \<or> 1 \<le> n"
        "fl \<longrightarrow> n < length (tests c) \<and> MAX_CHUNK_TIME < clock w' - clock w \<and> new \<noteq> []
            \<and> last new = timeout_event chunkIndex sessionId \<and> next_chunks new = [chunkIndex + 1]
            \<and> budget_exits new = [timeout_event chunkIndex sessionId] \<and> tl = []
            \<and> sessions w' = (sessions w)(sessionId \<mapsto> sd1)"
        "\<not> fl \<longrightarrow> n = length (tests c) \<and> next_chunks new = [] \<and> budget_exits new = []
            \<and> (if chunkIndex \<ge> int (length TEST_CHUNKS) - 1
                then tl = [complete_event botName sd1 sessionId] \<and> sessions w' = (sessions w)(sessionId := None)
                else tl = [Chunk_complete (chunk_name c @ '' complete'') (chunkIndex + 1) sessionId]
                     \<and> sessions w' = (sessions w)(sessionId \<mapsto> sd1))"
    by blast
  have tl: "started_names tl = [] \<and> completed_names tl = []"
    using sh(6,7) by (cases fl; cases "chunkIndex \<ge> int (length TEST_CHUNKS) - 1") auto
  have a: "started_names out = take n (tests c)" "completed_names out = take n (tests c)"
    using sh(1,3,4) tl by simp_all
  have b: "n < length (tests c) \<longrightarrow>
             last out = timeout_event chunkIndex sessionId
           \<and> next_chunks out = [chunkIndex + 1]
           \<and> MAX_CHUNK_TIME < clock w' - clock w"
    using sh(1,6,7) by (cases fl) auto
  have c: "n = length (tests c) \<longrightarrow> budget_exits out = []"
  proof
    assume "n = length (tests c)"
    with sh(6) have nf: "\<not> fl" by auto
    from chunk_at_cases [OF assms(1)]
    have "\<not> budget_exit (Chunk_complete (chunk_name c @ '' complete'') (chunkIndex + 1) sessionId)"
      by (auto simp: TEST_CHUNKS_def)
    with nf sh(1,7) show "budget_exits out = []"
      by (cases "chunkIndex \<ge> int (length TEST_CHUNKS) - 1") auto
  qed
  from sh(2,5) ne a b c
  have chunk_level: "\<exists>n. 1 \<le> n \<and> n \<le> length (tests c)
           \<and> started_names out = take n (tests c) \<and> completed_names out = take n (tests c)
           \<and> (n < length (tests c) \<longrightarrow>
                 last out = Chunk_complete ''Chunk timeout - continuing with next chunk''
                              (chunkIndex + 1) sessionId
               \<and> next_chunks out = [chunkIndex + 1]
               \<and> MAX_CHUNK_TIME < clock w' - clock w)
           \<and> (n = length (tests c) \<longrightarrow> budget_exits out = [])"
    by (intro exI [of _ n]) (simp add: timeout_event_def)
  have over: "MAX_CHUNK_TIME < clock v - startTime \<longrightarrow>
           run_tests E c chunkIndex botName apiKey sessionId startTime (t # rest) (sd, v, acc) =
             (True, sd, v,
              acc @ [Chunk_complete ''Chunk timeout - continuing with next chunk''
                       (chunkIndex + 1) sessionId])"
    by (simp add: run_tests_Cons)
  have within_budget: "\<not> MAX_CHUNK_TIME < clock v - startTime \<longrightarrow>
           (\<exists>sd1 v1 r.
              run_tests E c chunkIndex botName apiKey sessionId startTime (t # rest) (sd, v, acc) =
                run_tests E c chunkIndex botName apiKey sessionId startTime rest
                  (sd1, v1,
                   acc @ [Test_start (chunk_category c) t (''Testing: '' @ t) sessionId,
                          Test_complete (chunk_category c) t r sessionId])
            \<and> clock v + int (elapsed E t (clock v)) \<le> clock v1)"
  proof
    assume within: "\<not> MAX_CHUNK_TIME < clock v - startTime"
    obtain sd1 v1 out1 where
      step: "check_step E c botName apiKey sessionId t (sd, v, acc) = (sd1, v1, out1)"
      by (cases "check_step E c botName apiKey sessionId t (sd, v, acc)") auto
    from check_step_shape [OF step] within step
    show "\<exists>sd1 v1 r.
            run_tests E c chunkIndex botName apiKey sessionId startTime (t # rest) (sd, v, acc) =
              run_tests E c chunkIndex botName apiKey sessionId startTime rest
                (sd1, v1,
                 acc @ [Test_start (chunk_category c) t (''Testing: '' @ t) sessionId,
                        Test_complete (chunk_category c) t r sessionId])
          \<and> clock v + int (elapsed E t (clock v)) \<le> clock v1"
      by (auto simp: run_tests_Cons)
  qed
  from chunk_level over within_budget show ?thesis
    by blast
qed

theorem budget_is_checked_before_each_check_witness:
  "chunk_at 3 = Some (TEST_CHUNKS ! 3) \<and>
   started_names (snd (processChunk E_slow ''Assistant'' ''key'' 3 ''s1'' w_init))
     = [''PNG support''] \<and>
   next_chunks (snd (processChunk E_slow ''Assistant'' ''key'' 3 ''s1'' w_init)) = [4] \<and>
   started_names (snd (processChunk E_ok ''Assistant'' ''key'' 0 ''s1'' w_init))
     = tests (TEST_CHUNKS ! 0) \<and>
   budget_exits (snd (processChunk E_ok ''Assistant'' ''key'' 0 ''s1'' w_init)) = []"
  using budget_is_checked_before_each_check
    [where chunkIndex = 3 and c = "TEST_CHUNKS ! 3" and E = E_slow and botName = "''Assistant''"
       and apiKey = "''key''" and sessionId = "''s1''" and w = w_init
       and w' = "fst (processChunk E_slow ''Assistant'' ''key'' 3 ''s1'' w_init)"
       and out = "snd (processChunk E_slow ''Assistant'' ''key'' 3 ''s1'' w_init)"]
  by (simp add: eval_defs)



text \<open>
  C5. Whenever an invocation enqueues the \<^verbatim>\<open>complete\<close> event (the last chunk finished its
  checks within budget), the five category collections of the scorecard hold at least
  one result, and \<open>overallScore\<close> is the mean of the scores of all of them, rounded to the
  nearest integer, where a result without a score adds 0 to the sum and counts once in
  the divisor. The collections are those accumulated in the session: what the invocation
  found, with the results it completed itself appended under \<open>errorHandling\<close>.
\<close>

theorem overall_score_is_rounded_mean:
  assumes "processChunk E botName apiKey chunkIndex sessionId w = (w', out)"
      and "Complete sc p m s \<in> set out"
  shows "concat (map (categories sc) [branding, functionality, usability, fileSupport, errorHandling]) \<noteq> []
       \<and> overallScore sc =
           Some (round
             ((\<Sum>r\<leftarrow>concat (map (categories sc)
                         [branding, functionality, usability, fileSupport, errorHandling]).
                  real_of_int (case score r of None \<Rightarrow> 0 | Some x \<Rightarrow> x))
              / real (length (concat (map (categories sc)
                         [branding, functionality, usability, fileSupport, errorHandling])))))
       \<and> categories sc =
           (results (session_or_fresh w sessionId botName))
             (errorHandling := results (session_or_fresh w sessionId botName) errorHandling
                                 @ completed_results out)"
proof -
  have "chunk_at chunkIndex \<noteq> None"
  proof
    assume "chunk_at chunkIndex = None"
    with assms(1) have "out = []" by (simp add: processChunk_def)
    with assms(2) show False by simp
  qed
  then obtain c where c: "chunk_at chunkIndex = Some c" by blast
  from c assms(1) show ?thesis
  proof (cases rule: processChunk_cases)
    case (budget_exit sd1 new n)
    with assms(2) no_scorecard_no_complete [OF budget_exit(8)] show ?thesis
      by (simp add: progress_event_def)
  next
    case (next_chunk sd1 new)
    with assms(2) no_scorecard_no_complete [OF next_chunk(7)] show ?thesis
      by (simp add: progress_event_def)
  next
    case (last_chunk sd1 new)
    with assms(2) no_scorecard_no_complete [OF last_chunk(7)]
    have sc: "sc = \<lparr>botName_sc = botName, overallScore = computeOverallScore (allResults sd1),
               categories = results sd1\<rparr>"
      by (simp add: progress_event_def complete_event_def)
    from chunk_at_cases [OF c] last_chunk(1)
    have c6: "tests c = [''Helpful error messages'']" "chunk_category c = errorHandling"
      by (simp_all add: TEST_CHUNKS_def)
    from last_chunk(4) c6 have "completed_results new \<noteq> []"
      by (auto simp: completed_names_def)
    with last_chunk(5) c6 have ne: "allResults sd1 \<noteq> []"
      by (simp add: allResults_def)
    have cr: "completed_results out = completed_results new"
      using last_chunk(2) by simp
    from sc ne last_chunk(5) c6 cr computeOverallScore_round [OF ne] show ?thesis
      by (simp add: allResults_def)
  qed
qed

theorem overall_score_is_rounded_mean_witness:
  "Complete (hd (scorecards (snd (processChunk E_ok ''Assistant'' ''key'' 6 ''s1'' w_partial))))
      100 ''Analysis complete!'' ''s1''
     \<in> set (snd (processChunk E_ok ''Assistant'' ''key'' 6 ''s1'' w_partial)) \<and>
   map score (concat (map (categories
       (hd (scorecards (snd (processChunk E_ok ''Assistant'' ''key'' 6 ''s1'' w_partial)))))
     [branding, functionality, usability, fileSupport, errorHandling]))
     = [None, Some 45, Some 100] \<and>
   overallScore (hd (scorecards (snd (processChunk E_ok ''Assistant'' ''key'' 6 ''s1'' w_partial))))
     = Some 48"
  using overall_score_is_rounded_mean
    [where E = E_ok and botName = "''Assistant''" and apiKey = "''key''" and chunkIndex = 6
       and sessionId = "''s1''" and w = w_partial
       and w' = "fst (processChunk E_ok ''Assistant'' ''key'' 6 ''s1'' w_partial)"
       and out = "snd (processChunk E_ok ''Assistant'' ''key'' 6 ''s1'' w_partial)"
       and sc = "hd (scorecards (snd (processChunk E_ok ''Assistant'' ''key'' 6 ''s1'' w_partial)))"
       and p = 100 and m = "''Analysis complete!''" and s = "''s1''"]
  by (simp add: eval_defs session_or_fresh_def round_def)

text \<open>
  C7. The session entry lives from the first in-range chunk request for its identifier
  to the invocation that enqueues \<^verbatim>\<open>complete\<close>. An invocation that finds no entry for the
  identifier and does not complete the run leaves an entry with the requested bot name;
  an invocation that does not enqueue \<^verbatim>\<open>complete\<close> leaves an entry; the invocation that
  enqueues \<^verbatim>\<open>complete\<close> leaves none; no invocation touches the entry of another
  identifier. So after chunks 0 to 6 processed in order, each finishing within budget,
  exactly one \<^verbatim>\<open>complete\<close> has been enqueued and the store has no entry for the session.
\<close>

theorem session_lives_from_first_chunk_to_complete:
  "(chunk_at chunkIndex = Some c
      \<and> processChunk E botName apiKey chunkIndex sessionId w = (w', out) \<longrightarrow>
       (sessions w sessionId = None \<and> scorecards out = [] \<longrightarrow>
          (\<exists>sd. sessions w' sessionId = Some sd \<and> botName_sd sd = botName))
     \<and> (scorecards out = [] \<longrightarrow> sessions w' sessionId \<noteq> None)
     \<and> (scorecards out \<noteq> [] \<longrightarrow> sessions w' sessionId = None)
     \<and> (\<forall>s. s = sessionId \<or> sessions w' s = sessions w s))
   \<and> (process_in_order E botName apiKey sessionId [0, 1, 2, 3, 4, 5, 6] w0 = (w7, evs)
      \<and> budget_exits evs = [] \<longrightarrow>
       sessions w7 sessionId = None \<and> length (scorecards evs) = 1
     \<and> next_chunks evs = [1, 2, 3, 4, 5, 6])"
proof (intro conjI impI)
  assume a: "chunk_at chunkIndex = Some c
      \<and> processChunk E botName apiKey chunkIndex sessionId w = (w', out)"
  then have c: "chunk_at chunkIndex = Some c"
    and p: "processChunk E botName apiKey chunkIndex sessionId w = (w', out)" by simp_all
  from processChunk_summary [OF c p] have
    s: "scorecards out = [] \<longrightarrow> sessions w' sessionId \<noteq> None"
       "scorecards out \<noteq> [] \<longrightarrow> sessions w' sessionId = None"
       "\<forall>s. s = sessionId \<or> sessions w' s = sessions w s"
       "\<forall>sd. sessions w' sessionId = Some sd \<longrightarrow>
              botName_sd sd = botName_sd (session_or_fresh w sessionId botName)"
    by blast+
  {
    assume "sessions w sessionId = None \<and> scorecards out = []"
    with s(1,4) show "\<exists>sd. sessions w' sessionId = Some sd \<and> botName_sd sd = botName"
      by (auto simp: session_or_fresh_def fresh_session_def)
  }
  {
    assume "scorecards out = []"
    with s(1) show "sessions w' sessionId \<noteq> None" by simp
  }
  {
    assume "scorecards out \<noteq> []"
    with s(2) show "sessions w' sessionId = None" by simp
  }
  from s(3) show "\<forall>s. s = sessionId \<or> sessions w' s = sessions w s" .
next
  assume a: "process_in_order E botName apiKey sessionId [0, 1, 2, 3, 4, 5, 6] w0 = (w7, evs)
      \<and> budget_exits evs = []"
  then have run: "process_in_order E botName apiKey sessionId [0, 1, 2, 3, 4, 5, 6] w0 = (w7, evs)"
    and nb: "budget_exits evs = []" by simp_all
  from run obtain w1 w2 w3 w4 w5 w6 o0 o1 o2 o3 o4 o5 o6 where
    p: "processChunk E botName apiKey 0 sessionId w0 = (w1, o0)"
       "processChunk E botName apiKey 1 sessionId w1 = (w2, o1)"
       "processChunk E botName apiKey 2 sessionId w2 = (w3, o2)"
       "processChunk E botName apiKey 3 sessionId w3 = (w4, o3)"
       "processChunk E botName apiKey 4 sessionId w4 = (w5, o4)"
       "processChunk E botName apiKey 5 sessionId w5 = (w6, o5)"
       "processChunk E botName apiKey 6 sessionId w6 = (w7, o6)"
    and evs: "evs = o0 @ o1 @ o2 @ o3 @ o4 @ o5 @ o6"
    by (rule process_in_order_seven)
  from nb evs have nbs: "budget_exits o0 = []" "budget_exits o1 = []" "budget_exits o2 = []"
    "budget_exits o3 = []" "budget_exits o4 = []" "budget_exits o5 = []" "budget_exits o6 = []"
    by simp_all
  from processChunk_summary [OF chunk_at_numeral(1) p(1)] nbs(1)
  have r0: "scorecards o0 = [] \<and> next_chunks o0 = [1]" by auto
  from processChunk_summary [OF chunk_at_numeral(2) p(2)] nbs(2)
  have r1: "scorecards o1 = [] \<and> next_chunks o1 = [2]" by auto
  from processChunk_summary [OF chunk_at_numeral(3) p(3)] nbs(3)
  have r2: "scorecards o2 = [] \<and> next_chunks o2 = [3]" by auto
  from processChunk_summary [OF chunk_at_numeral(4) p(4)] nbs(4)
  have r3: "scorecards o3 = [] \<and> next_chunks o3 = [4]" by auto
  from processChunk_summary [OF chunk_at_numeral(5) p(5)] nbs(5)
  have r4: "scorecards o4 = [] \<and> next_chunks o4 = [5]" by auto
  from processChunk_summary [OF chunk_at_numeral(6) p(6)] nbs(6)
  have r5: "scorecards o5 = [] \<and> next_chunks o5 = [6]" by auto
  from processChunk_summary [OF chunk_at_numeral(7) p(7)] nbs(7)
  have r6: "sessions w7 sessionId = None \<and> length (scorecards o6) = 1 \<and> next_chunks o6 = []"
    by auto
  from r6 show "sessions w7 sessionId = None" by simp
  from evs r0 r1 r2 r3 r4 r5 r6 show "length (scorecards evs) = 1" by simp
  from evs r0 r1 r2 r3 r4 r5 r6 show "next_chunks evs = [1, 2, 3, 4, 5, 6]" by simp
qed

theorem session_lives_from_first_chunk_to_complete_witness:
  "chunk_at 0 = Some (TEST_CHUNKS ! 0) \<and>
   sessions w_init ''s1'' = None \<and>
   scorecards (snd (processChunk E_ok ''Assistant'' ''key'' 0 ''s1'' w_init)) = [] \<and>
   map_option botName_sd (sessions (fst (processChunk E_ok ''Assistant'' ''key'' 0 ''s1'' w_init)) ''s1'')
     = Some ''Assistant'' \<and>
   budget_exits (snd run_ok) = [] \<and>
   sessions (fst run_ok) ''s1'' = None \<and>
   length (scorecards (snd run_ok)) = 1"
proof -
  have r: "process_in_order E_ok ''Assistant'' ''key'' ''s1'' [0, 1, 2, 3, 4, 5, 6] w_init
             = (fst run_ok, snd run_ok)"
    unfolding run_ok_def by (rule prod.collapse [symmetric])
  have c: "chunk_at 0 = Some (TEST_CHUNKS ! 0)"
    by (rule chunk_at_numeral(1))
  have p: "processChunk E_ok ''Assistant'' ''key'' 0 ''s1'' w_init
             = (fst (processChunk E_ok ''Assistant'' ''key'' 0 ''s1'' w_init),
                snd (processChunk E_ok ''Assistant'' ''key'' 0 ''s1'' w_init))"
    by (rule prod.collapse [symmetric])
  have e: "sessions w_init ''s1'' = None"
          "scorecards (snd (processChunk E_ok ''Assistant'' ''key'' 0 ''s1'' w_init)) = []"
          "map_option botName_sd
             (sessions (fst (processChunk E_ok ''Assistant'' ''key'' 0 ''s1'' w_init)) ''s1'')
           = Some ''Assistant''"
    by (simp_all add: eval_defs)
  from session_lives_from_first_chunk_to_complete
    [where chunkIndex = 0 and c = "TEST_CHUNKS ! 0" and E = E_ok and botName = "''Assistant''"
       and apiKey = "''key''" and sessionId = "''s1''" and w = w_init
       and w' = "fst (processChunk E_ok ''Assistant'' ''key'' 0 ''s1'' w_init)"
       and out = "snd (processChunk E_ok ''Assistant'' ''key'' 0 ''s1'' w_init)"
       and ?w0.0 = w_init and ?w7.0 = "fst run_ok" and evs = "snd run_ok"]
    r run_ok_within_budget
  have "sessions (fst run_ok) ''s1'' = None \<and> length (scorecards (snd run_ok)) = 1"
    by blast
  with c e run_ok_within_budget show ?thesis by blast
qed

text \<open>
  C2, as the claim states it, fails: a check that is not started because the budget of its
  chunk is used up is not run by any later chunk. With \<open>E_slow\<close> (an API that answers
  after nine seconds) the ordered run of chunks 0 to 6 completes every check of chunks
  0 to 2, and of chunks 3, 4 and 5 only the first, which uses up the budget;
  \<^verbatim>\<open>JPEG support\<close>, a configured check, is never completed.
\<close>

theorem skipped_check_is_never_run_counterexample:
  "completed_names (snd run_slow) =
     [''Fetch bot metadata'', ''Parse bot information'',
      ''Bot name consistency and formatting'', ''Profile picture appeal and quality'',
      ''Brand consistency with model family'', ''Official verification and credibility'',
      ''Description clarity for non-technical users'', ''Advanced behavior documentation'',
      ''Limitation documentation'',
      ''PNG support'', ''GIF support'', ''Multi-turn conversation coherence'',
      ''Helpful error messages''] \<and>
   ''JPEG support'' \<in> set registry \<and>
   ''JPEG support'' \<notin> set (completed_names (snd run_slow))"
  by (simp add: run_slow_completed registry_def TEST_CHUNKS_def)

text \<open>
  C2, amended. For every run that processes the chunk indices 0 to 6 in order for one
  session: every name carried by a \<^verbatim>\<open>test_complete\<close> event is a configured check and no
  name is carried twice, hence none by two different chunks. If no chunk left its loop
  through the budget exit, the names are exactly the check registry, in its order. If
  some chunk did, fewer names than the registry holds are emitted: the checks that chunk
  did not start are not run later.
\<close>

theorem ordered_run_completes_a_prefix_of_each_chunk:
  assumes "process_in_order E botName apiKey sessionId [0, 1, 2, 3, 4, 5, 6] w = (w', out)"
  shows "distinct (completed_names out)
       \<and> set (completed_names out) \<subseteq> set registry
       \<and> (budget_exits out = [] \<longrightarrow> completed_names out = registry)
       \<and> (budget_exits out \<noteq> [] \<longrightarrow> length (completed_names out) < length registry)"
proof -
  from assms obtain w1 w2 w3 w4 w5 w6 o0 o1 o2 o3 o4 o5 o6 where
    p: "processChunk E botName apiKey 0 sessionId w = (w1, o0)"
       "processChunk E botName apiKey 1 sessionId w1 = (w2, o1)"
       "processChunk E botName apiKey 2 sessionId w2 = (w3, o2)"
       "processChunk E botName apiKey 3 sessionId w3 = (w4, o3)"
       "processChunk E botName apiKey 4 sessionId w4 = (w5, o4)"
       "processChunk E botName apiKey 5 sessionId w5 = (w6, o5)"
       "processChunk E botName apiKey 6 sessionId w6 = (w', o6)"
    and out: "out = o0 @ o1 @ o2 @ o3 @ o4 @ o5 @ o6"
    by (rule process_in_order_seven)
  from processChunk_summary [OF chunk_at_numeral(1) p(1)] obtain n0 where
    n0: "n0 \<le> length (tests (TEST_CHUNKS ! 0))" "completed_names o0 = take n0 (tests (TEST_CHUNKS ! 0))"
        "budget_exits o0 = [] \<longleftrightarrow> n0 = length (tests (TEST_CHUNKS ! 0))" by blast
  from processChunk_summary [OF chunk_at_numeral(2) p(2)] obtain n1 where
    n1: "n1 \<le> length (tests (TEST_CHUNKS ! 1))" "completed_names o1 = take n1 (tests (TEST_CHUNKS ! 1))"
        "budget_exits o1 = [] \<longleftrightarrow> n1 = length (tests (TEST_CHUNKS ! 1))" by blast
  from processChunk_summary [OF chunk_at_numeral(3) p(3)] obtain n2 where
    n2: "n2 \<le> length (tests (TEST_CHUNKS ! 2))" "completed_names o2 = take n2 (tests (TEST_CHUNKS ! 2))"
        "budget_exits o2 = [] \<longleftrightarrow> n2 = length (tests (TEST_CHUNKS ! 2))" by blast
  from processChunk_summary [OF chunk_at_numeral(4) p(4)] obtain n3 where
    n3: "n3 \<le> length (tests (TEST_CHUNKS ! 3))" "completed_names o3 = take n3 (tests (TEST_CHUNKS ! 3))"
        "budget_exits o3 = [] \<longleftrightarrow> n3 = length (tests (TEST_CHUNKS ! 3))" by blast
  from processChunk_summary [OF chunk_at_numeral(5) p(5)] obtain n4 where
    n4: "n4 \<le> length (tests (TEST_CHUNKS ! 4))" "completed_names o4 = take n4 (tests (TEST_CHUNKS ! 4))"
        "budget_exits o4 = [] \<longleftrightarrow> n4 = length (tests (TEST_CHUNKS ! 4))" by blast
  from processChunk_summary [OF chunk_at_numeral(6) p(6)] obtain n5 where
    n5: "n5 \<le> length (tests (TEST_CHUNKS ! 5))" "completed_names o5 = take n5 (tests (TEST_CHUNKS ! 5))"
        "budget_exits o5 = [] \<longleftrightarrow> n5 = length (tests (TEST_CHUNKS ! 5))" by blast
  from processChunk_summary [OF chunk_at_numeral(7) p(7)] obtain n6 where
    n6: "n6 \<le> length (tests (TEST_CHUNKS ! 6))" "completed_names o6 = take n6 (tests (TEST_CHUNKS ! 6))"
        "budget_exits o6 = [] \<longleftrightarrow> n6 = length (tests (TEST_CHUNKS ! 6))" by blast
  have names: "completed_names out =
      concat (map2 take [n0, n1, n2, n3, n4, n5, n6] (map tests TEST_CHUNKS))"
    unfolding takes_registry using out n0(2) n1(2) n2(2) n3(2) n4(2) n5(2) n6(2) by simp
  have d: "distinct (completed_names out)"
    unfolding names using registry_distinct
    by (intro distinct_takes) (simp add: registry_def)
  have s: "set (completed_names out) \<subseteq> set registry"
    unfolding names registry_def by (rule set_takes)
  have len: "length (completed_names out) = n0 + n1 + n2 + n3 + n4 + n5 + n6"
    unfolding names takes_registry using n0(1) n1(1) n2(1) n3(1) n4(1) n5(1) n6(1) by simp
  have lr: "length registry = 19"
    by (simp add: registry_def TEST_CHUNKS_def)
  note b = n0(1,3) [unfolded chunk_lengths] n1(1,3) [unfolded chunk_lengths]
    n2(1,3) [unfolded chunk_lengths] n3(1,3) [unfolded chunk_lengths]
    n4(1,3) [unfolded chunk_lengths] n5(1,3) [unfolded chunk_lengths]
    n6(1,3) [unfolded chunk_lengths]
  have be: "budget_exits out = [] \<longleftrightarrow>
      budget_exits o0 = [] \<and> budget_exits o1 = [] \<and> budget_exits o2 = [] \<and> budget_exits o3 = []
      \<and> budget_exits o4 = [] \<and> budget_exits o5 = [] \<and> budget_exits o6 = []"
    using out by simp
  have full: "budget_exits out = [] \<longrightarrow> completed_names out = registry"
    unfolding be names takes_registry registry_chunks
    using n0(3) n1(3) n2(3) n3(3) n4(3) n5(3) n6(3) by simp
  have short: "budget_exits out \<noteq> [] \<longrightarrow> length (completed_names out) < length registry"
    unfolding be len lr
    using b by arith
  from d s full short show ?thesis by blast
qed

theorem ordered_run_completes_a_prefix_of_each_chunk_witness:
  "budget_exits (snd run_ok) = [] \<and> completed_names (snd run_ok) = registry"
proof -
  have r: "process_in_order E_ok ''Assistant'' ''key'' ''s1'' [0, 1, 2, 3, 4, 5, 6] w_init
             = (fst run_ok, snd run_ok)"
    unfolding run_ok_def by (rule prod.collapse [symmetric])
  from ordered_run_completes_a_prefix_of_each_chunk [OF r] run_ok_within_budget
  show ?thesis by blast
qed

text \<open>
  C8, as the claim states it, fails: a fetch that does not populate the metadata is not
  remembered. With \<open>E_down\<close> (the profile page answers 500), chunk 0 processed twice for
  session \<open>s1\<close> issues the fetch twice.
\<close>

theorem failed_fetch_is_repeated_counterexample:
  "stored_names (fst (processChunk E_down ''Assistant'' ''key'' 0 ''s1'' w_init)) ''s1'' usability
     = Some [''Fetch bot metadata'', ''Parse bot information''] \<and>
   pageFetches (fst (processChunk E_down ''Assistant'' ''key'' 0 ''s1'' w_init)) = [''Assistant''] \<and>
   pageFetches
     (fst (processChunk E_down ''Assistant'' ''key'' 0 ''s1''
        (fst (processChunk E_down ''Assistant'' ''key'' 0 ''s1'' w_init))))
     = [''Assistant'', ''Assistant'']"
  by (simp add: eval_defs)

text \<open>
  C8, amended. Once the metadata of a session is populated, no invocation for that session
  fetches the profile page again, and the stored metadata stays what it is for as long as
  the session exists: every later check and chunk reuses it. Only the
  \<^verbatim>\<open>Fetch bot metadata\<close> check of chunk 0 fetches the page, and only while the field is
  empty, so an invocation for another chunk index never fetches, and a run that processes
  chunks 0 to 6 once each fetches the page at most once.
\<close>

theorem stored_metadata_is_reused:
  "(sessions w sessionId = Some sd \<and> metadata sd = Some m
      \<and> processChunk E botName apiKey chunkIndex sessionId w = (w', out) \<longrightarrow>
       pageFetches w' = pageFetches w
     \<and> (\<forall>sd'. sessions w' sessionId = Some sd' \<longrightarrow> metadata sd' = Some m))
   \<and> (chunkIndex \<noteq> 0
      \<and> processChunk E botName apiKey chunkIndex sessionId w = (w', out) \<longrightarrow>
       pageFetches w' = pageFetches w)
   \<and> (process_in_order E botName apiKey sessionId [0, 1, 2, 3, 4, 5, 6] w0 = (w7, evs) \<longrightarrow>
       length (pageFetches w7) \<le> length (pageFetches w0) + 1)"
proof (intro conjI impI)
  assume a: "sessions w sessionId = Some sd \<and> metadata sd = Some m
      \<and> processChunk E botName apiKey chunkIndex sessionId w = (w', out)"
  then have sf: "session_or_fresh w sessionId botName = sd"
    by (simp add: session_or_fresh_def)
  from a have p: "processChunk E botName apiKey chunkIndex sessionId w = (w', out)" by simp
  from processChunk_world [OF p]
  have "pageFetches w' = pageFetches w
     \<and> (\<forall>sd'. sessions w' sessionId = Some sd' \<longrightarrow> metadata sd' = Some m)"
  proof (elim disjE exE conjE)
    fix c fl sd1 w1 out1
    assume run: "run_tests E c chunkIndex botName apiKey sessionId (clock w) (tests c)
                  (session_or_fresh w sessionId botName, w, [progress_event c chunkIndex sessionId])
                 = (fl, sd1, w1, out1)"
      and f: "pageFetches w' = pageFetches w1"
      and s: "\<forall>sd'. sessions w' sessionId = Some sd' \<longrightarrow> sd' = sd1"
    from a have md: "metadata sd = Some m" by simp
    from run_tests_cached [OF md run [unfolded sf]] f s show ?thesis by auto
  next
    assume "chunk_at chunkIndex = None" "w' = w"
    with a show ?thesis by auto
  qed
  then show "pageFetches w' = pageFetches w"
    and "\<forall>sd'. sessions w' sessionId = Some sd' \<longrightarrow> metadata sd' = Some m" by simp_all
next
  assume "chunkIndex \<noteq> 0 \<and> processChunk E botName apiKey chunkIndex sessionId w = (w', out)"
  with processChunk_fetches [of E botName apiKey chunkIndex sessionId w w' out]
  show "pageFetches w' = pageFetches w" by auto
next
  assume run: "process_in_order E botName apiKey sessionId [0, 1, 2, 3, 4, 5, 6] w0 = (w7, evs)"
  from run obtain w1 w2 w3 w4 w5 w6 o0 o1 o2 o3 o4 o5 o6 where
    p: "processChunk E botName apiKey 0 sessionId w0 = (w1, o0)"
       "processChunk E botName apiKey 1 sessionId w1 = (w2, o1)"
       "processChunk E botName apiKey 2 sessionId w2 = (w3, o2)"
       "processChunk E botName apiKey 3 sessionId w3 = (w4, o3)"
       "processChunk E botName apiKey 4 sessionId w4 = (w5, o4)"
       "processChunk E botName apiKey 5 sessionId w5 = (w6, o5)"
       "processChunk E botName apiKey 6 sessionId w6 = (w7, o6)"
    by (rule process_in_order_seven)
  from processChunk_fetches [OF p(1)] processChunk_fetches [OF p(2)]
    processChunk_fetches [OF p(3)] processChunk_fetches [OF p(4)]
    processChunk_fetches [OF p(5)] processChunk_fetches [OF p(6)]
    processChunk_fetches [OF p(7)]
  show "length (pageFetches w7) \<le> length (pageFetches w0) + 1" by auto
qed

theorem stored_metadata_is_reused_witness:
  "map_option metadata (sessions (fst (processChunk E_ok ''Assistant'' ''key'' 0 ''s1'' w_init)) ''s1'')
     = Some (Some (parsePage E_ok ''<title>Assistant - Poe</title>'' ''Assistant'')) \<and>
   pageFetches (fst (processChunk E_ok ''Assistant'' ''key'' 0 ''s1'' w_init)) = [''Assistant''] \<and>
   pageFetches
     (fst (processChunk E_ok ''Assistant'' ''key'' 0 ''s1''
        (fst (processChunk E_ok ''Assistant'' ''key'' 0 ''s1'' w_init))))
     = [''Assistant'']"
  using stored_metadata_is_reused
    [where w = "fst (processChunk E_ok ''Assistant'' ''key'' 0 ''s1'' w_init)"
       and sessionId = "''s1''" and E = E_ok and botName = "''Assistant''" and apiKey = "''key''"
       and chunkIndex = 0
       and w' = "fst (processChunk E_ok ''Assistant'' ''key'' 0 ''s1''
                   (fst (processChunk E_ok ''Assistant'' ''key'' 0 ''s1'' w_init)))"
       and out = "snd (processChunk E_ok ''Assistant'' ''key'' 0 ''s1''
                   (fst (processChunk E_ok ''Assistant'' ''key'' 0 ''s1'' w_init)))"
       and sd = "the (sessions (fst (processChunk E_ok ''Assistant'' ''key'' 0 ''s1'' w_init)) ''s1'')"
       and m = "parsePage E_ok ''<title>Assistant - Poe</title>'' ''Assistant''"]
  by (simp add: eval_defs)

text \<open>
  C4. When an attempt of the client ends in a transport failure before a \<^verbatim>\<open>complete\<close> event
  was read: with \<open>retryCount < 3\<close> the client shows the status line, waits
  \<open>2 ^ retryCount\<close> seconds and runs the same chunk index with the same session identifier
  and \<open>retryCount + 1\<close>; with \<open>retryCount\<close> at 3 it raises the alert and stops. So four
  transport failures in a row for one chunk give exactly four requests for that chunk
  index and session, separated by waits of 1000, 2000 and 4000 ms, then the alert; the
  trace ends there whatever answers the network would have given next, so no other chunk
  index is requested.
\<close>

theorem transport_failure_is_retried_three_times:
  "(\<not> completes evs sessionId \<and> retryCount < MAX_RETRIES \<longrightarrow>
      (\<exists>status.
         runChunkedAnalysis (Transport_failure evs msg # answers) chunkIndex sessionId retryCount
           = Request chunkIndex sessionId # handled evs sessionId
               @ [Status_message status, Sleep (2 ^ retryCount * 1000)]
               @ runChunkedAnalysis answers chunkIndex sessionId (retryCount + 1)))
   \<and> (\<not> completes evs sessionId \<and> \<not> retryCount < MAX_RETRIES \<longrightarrow>
        runChunkedAnalysis (Transport_failure evs msg # answers) chunkIndex sessionId retryCount
          = Request chunkIndex sessionId # handled evs sessionId
              @ [Alert (''Analysis failed after 3 retries: '' @ msg), SetIsRunning False])
   \<and> (\<not> completes e1 sessionId \<and> \<not> completes e2 sessionId
        \<and> \<not> completes e3 sessionId \<and> \<not> completes e4 sessionId \<longrightarrow>
        requests_and_waits
          (runChunkedAnalysis
             (Transport_failure e1 m1 # Transport_failure e2 m2 # Transport_failure e3 m3
                # Transport_failure e4 m4 # answers) chunkIndex sessionId 0)
          = [Request chunkIndex sessionId, Sleep 1000,
             Request chunkIndex sessionId, Sleep 2000,
             Request chunkIndex sessionId, Sleep 4000,
             Request chunkIndex sessionId]
      \<and> last (runChunkedAnalysis
             (Transport_failure e1 m1 # Transport_failure e2 m2 # Transport_failure e3 m3
                # Transport_failure e4 m4 # answers) chunkIndex sessionId 0)
          = SetIsRunning False
      \<and> Alert (''Analysis failed after 3 retries: '' @ m4)
          \<in> set (runChunkedAnalysis
             (Transport_failure e1 m1 # Transport_failure e2 m2 # Transport_failure e3 m3
                # Transport_failure e4 m4 # answers) chunkIndex sessionId 0))"
proof -
  have d3: "digits 3 = ''3''"
    by (simp add: digits.simps)
  have a: "\<not> completes evs sessionId \<and> retryCount < MAX_RETRIES \<longrightarrow>
      (\<exists>status.
         runChunkedAnalysis (Transport_failure evs msg # answers) chunkIndex sessionId retryCount
           = Request chunkIndex sessionId # handled evs sessionId
               @ [Status_message status, Sleep (2 ^ retryCount * 1000)]
               @ runChunkedAnalysis answers chunkIndex sessionId (retryCount + 1))"
    by (simp add: failure_step del: runChunkedAnalysis.simps)
  have b: "\<not> completes evs sessionId \<and> \<not> retryCount < MAX_RETRIES \<longrightarrow>
        runChunkedAnalysis (Transport_failure evs msg # answers) chunkIndex sessionId retryCount
          = Request chunkIndex sessionId # handled evs sessionId
              @ [Alert (''Analysis failed after 3 retries: '' @ msg), SetIsRunning False]"
    by (simp add: failure_step MAX_RETRIES_def d3 del: runChunkedAnalysis.simps)
  have c: "\<not> completes e1 sessionId \<and> \<not> completes e2 sessionId
        \<and> \<not> completes e3 sessionId \<and> \<not> completes e4 sessionId \<longrightarrow>
        requests_and_waits
          (runChunkedAnalysis
             (Transport_failure e1 m1 # Transport_failure e2 m2 # Transport_failure e3 m3
                # Transport_failure e4 m4 # answers) chunkIndex sessionId 0)
          = [Request chunkIndex sessionId, Sleep 1000,
             Request chunkIndex sessionId, Sleep 2000,
             Request chunkIndex sessionId, Sleep 4000,
             Request chunkIndex sessionId]
      \<and> last (runChunkedAnalysis
             (Transport_failure e1 m1 # Transport_failure e2 m2 # Transport_failure e3 m3
                # Transport_failure e4 m4 # answers) chunkIndex sessionId 0)
          = SetIsRunning False
      \<and> Alert (''Analysis failed after 3 retries: '' @ m4)
          \<in> set (runChunkedAnalysis
             (Transport_failure e1 m1 # Transport_failure e2 m2 # Transport_failure e3 m3
                # Transport_failure e4 m4 # answers) chunkIndex sessionId 0)"
    by (simp add: failure_step MAX_RETRIES_def d3 del: runChunkedAnalysis.simps)
  from a b c show ?thesis by blast
qed

theorem transport_failure_is_retried_three_times_witness:
  "runChunkedAnalysis
     [Transport_failure [] ''Failed to fetch'', Transport_failure [] ''Failed to fetch'',
      Transport_failure [] ''Failed to fetch'', Transport_failure [] ''Failed to fetch'',
      Stream_end []] 2 (Some ''s1'') 0
   = [Request 2 (Some ''s1''),
      Status_message ''Connection lost, retrying in 1s... (attempt 1/3)'', Sleep 1000,
      Request 2 (Some ''s1''),
      Status_message ''Connection lost, retrying in 2s... (attempt 2/3)'', Sleep 2000,
      Request 2 (Some ''s1''),
      Status_message ''Connection lost, retrying in 4s... (attempt 3/3)'', Sleep 4000,
      Request 2 (Some ''s1''),
      Alert ''Analysis failed after 3 retries: Failed to fetch'', SetIsRunning False]"
  using transport_failure_is_retried_three_times
    [where evs = "[]" and sessionId = "Some ''s1''" and retryCount = 0 and chunkIndex = 2
       and msg = "''Failed to fetch''" and answers = "[Stream_end []]"
       and ?e1.0 = "[]" and ?e2.0 = "[]" and ?e3.0 = "[]" and ?e4.0 = "[]"
       and ?m1.0 = "''Failed to fetch''" and ?m2.0 = "''Failed to fetch''"
       and ?m3.0 = "''Failed to fetch''" and ?m4.0 = "''Failed to fetch''"]
  by (simp add: MAX_RETRIES_def digits.simps completes_def handled_def)

end
